theory Spec2Isabelle
  imports Main
begin

section \<open>cam-trigger: the command-driven recording controller\<close>

text \<open>
  A shallow embedding of \<^verbatim>\<open>src/apps/camera_trigger/main.c\<close>. The program reads
  commands from standard input and forks one \<^verbatim>\<open>rpicam-vid\<close> child per accepted
  \<^verbatim>\<open>save\<close>. Everything the program obtains from its environment is an explicit
  input of the model: the argument vector, the results of \<^verbatim>\<open>stat\<close> and
  \<^verbatim>\<open>mkdir\<close>, the lines read, the monotonic clock readings, the results of
  \<^verbatim>\<open>fork\<close> and \<^verbatim>\<open>waitpid\<close>, and the signals delivered.

  The variables of the program are modelled by \<^typ>\<open>int\<close>: the counter
  \<^verbatim>\<open>g_children\<close> stays within 0 and 1, and the millisecond clock readings are far
  from the limits of \<^verbatim>\<open>long\<close>. Only \<^verbatim>\<open>atoi\<close> meets values beyond
  \<^verbatim>\<open>int\<close>, and its conversion is written out.

  A signal handler runs as a whole. In the command loop it runs between the processing
  of two lines; in the loop that waits for the children at shutdown it runs while
  \<^verbatim>\<open>waitpid\<close> blocks, that is between the test of \<^verbatim>\<open>g_children\<close> and the
  decrement, or between the decrement and the next test.

  The kernel is part of the environment too. The model keeps the one fact about it that
  decides what \<^verbatim>\<open>waitpid\<close> can return: the number of children the program has
  forked and not yet waited for. \<^verbatim>\<open>waitpid\<close> returns a pid only while that number
  is positive.
\<close>

subsection \<open>Configuration\<close>

record app_config =
  duration_ms :: int
  out_dir :: string
  min_gap_ms :: int
  verbose :: bool

text \<open>The static initialiser of the global \<^verbatim>\<open>cfg\<close>.\<close>

definition cfg_init :: app_config where
  "cfg_init = \<lparr>duration_ms = 10000, out_dir = ''/mnt/ssd/clips'',
                min_gap_ms = 500, verbose = False\<rparr>"

subsection \<open>State and log output\<close>

text \<open>Each line the program writes to standard error, by the call that writes it.\<close>

datatype msg =
    Log_unknown_arg string
  | Log_usage
  | Log_outdir_error string
  | Log_banner
  | Log_default_save int string
  | Log_exiting
  | Log_status bool
  | Log_debounce int
  | Log_busy
  | Log_fork_failed
  | Log_start_failed
  | Log_spawned int
  | Log_commands
  | Log_unknown_command string
  | Log_type_hint

text \<open>
  The globals \<^verbatim>\<open>g_stop\<close> and \<^verbatim>\<open>g_children\<close>, the local
  \<^verbatim>\<open>last_ms_since_start\<close> of \<^verbatim>\<open>main\<close>, and what has been written to
  standard error. The last field is not a variable of the program: \<open>unreaped\<close> is the
  kernel's count of the children that the program has forked and not yet waited for.
\<close>

record state =
  g_stop :: bool
  g_children :: int
  last_ms_since_start :: int
  stderr :: "msg list"
  unreaped :: nat

definition state_init :: state where
  "state_init = \<lparr>g_stop = False, g_children = 0, last_ms_since_start = - 1000000, stderr = [],
                  unreaped = 0\<rparr>"

definition logf :: "msg \<Rightarrow> state \<Rightarrow> state" where
  "logf m s = s\<lparr>stderr := stderr s @ [m]\<rparr>"

definition vlogf :: "bool \<Rightarrow> msg \<Rightarrow> state \<Rightarrow> state" where
  "vlogf cond m s = (if \<not> cond then s else s\<lparr>stderr := stderr s @ [m]\<rparr>)"

subsection \<open>Helpers\<close>

datatype stat_result = Stat_failed | Stat_is_dir | Stat_not_dir

text \<open>\<^verbatim>\<open>ensure_dir\<close>: 0 when the path is a directory or could be created, -1 otherwise.\<close>

definition ensure_dir :: "stat_result \<Rightarrow> bool \<Rightarrow> int" where
  "ensure_dir st mkdir_ok =
     (case st of
        Stat_is_dir \<Rightarrow> 0
      | Stat_not_dir \<Rightarrow> - 1
      | Stat_failed \<Rightarrow> if mkdir_ok then 0 else - 1)"

text \<open>
  A line as the C code sees it: the characters before the first NUL.
\<close>

definition c_str :: "string \<Rightarrow> string" where
  "c_str s = takeWhile (\<lambda>c. c \<noteq> CHR 0x00) s"

definition is_trim_char :: "char \<Rightarrow> bool" where
  "is_trim_char c \<longleftrightarrow> c = CHR '' '' \<or> c = CHR 0x09 \<or> c = CHR 0x0A \<or> c = CHR 0x0D"

definition trim :: "string \<Rightarrow> string" where
  "trim s = rev (dropWhile is_trim_char (rev (dropWhile is_trim_char s)))"

text \<open>\<^verbatim>\<open>strncmp(s, t, n) == 0\<close> on strings without NUL.\<close>

definition strncmp_eq :: "string \<Rightarrow> string \<Rightarrow> nat \<Rightarrow> bool" where
  "strncmp_eq s t n \<longleftrightarrow> take n s = take n t"

text \<open>
  \<^verbatim>\<open>atoi\<close> belongs to the C library. It is modelled as the C library of the
  target (glibc, with a 64-bit \<^verbatim>\<open>long\<close>) has it: \<^verbatim>\<open>(int) strtol(s, NULL, 10)\<close>.
  \<^verbatim>\<open>strtol\<close> skips white space, reads an optional sign and the longest run of
  decimal digits that follows, and returns their value, or \<open>LONG_MAX\<close> or
  \<open>LONG_MIN\<close> when the value is beyond them; without a digit it returns 0. The
  conversion to \<^verbatim>\<open>int\<close> keeps the low 32 bits.
\<close>

definition INT_MAX :: int where
  "INT_MAX = 2147483647"

definition LONG_MAX :: int where
  "LONG_MAX = 9223372036854775807"

definition LONG_MIN :: int where
  "LONG_MIN = - 9223372036854775808"

definition int_cast :: "int \<Rightarrow> int" where
  "int_cast v = (v + 2147483648) mod 4294967296 - 2147483648"

definition isspace :: "char \<Rightarrow> bool" where
  "isspace c \<longleftrightarrow> c = CHR '' '' \<or> c = CHR 0x09 \<or> c = CHR 0x0A \<or> c = CHR 0x0B
                 \<or> c = CHR 0x0C \<or> c = CHR 0x0D"

definition isdigit :: "char \<Rightarrow> bool" where
  "isdigit c \<longleftrightarrow> 48 \<le> (of_char c :: nat) \<and> (of_char c :: nat) \<le> 57"

fun digits_value :: "int \<Rightarrow> string \<Rightarrow> int" where
  "digits_value acc [] = acc"
| "digits_value acc (c # cs) =
     (if isdigit c then digits_value (10 * acc + (int (of_char c) - 48)) cs else acc)"

definition strtol :: "string \<Rightarrow> int" where
  "strtol s =
     (case dropWhile isspace s of
        [] \<Rightarrow> 0
      | c # cs \<Rightarrow>
          if c = CHR ''-'' then max LONG_MIN (- digits_value 0 cs)
          else if c = CHR ''+'' then min LONG_MAX (digits_value 0 cs)
          else min LONG_MAX (digits_value 0 (c # cs)))"

definition atoi :: "string \<Rightarrow> int" where
  "atoi s = int_cast (strtol s)"

subsection \<open>Launching and reaping the recorder\<close>

text \<open>
  What \<^verbatim>\<open>fork\<close> returns in the parent: an error, or the pid of the child. The child
  itself calls \<^verbatim>\<open>execvp\<close> or \<^verbatim>\<open>_exit\<close> and never returns into the parent's
  flow of control. A successful \<^verbatim>\<open>fork\<close> gives the program one more child to wait
  for.
\<close>

datatype fork_result = Fork_error | Fork_child_pid int

definition spawn_recorder :: "int \<Rightarrow> string \<Rightarrow> bool \<Rightarrow> fork_result \<Rightarrow> state \<Rightarrow> int \<times> state" where
  "spawn_recorder dur dir verb fr s =
     (case fr of
        Fork_error \<Rightarrow> (- 1, logf Log_fork_failed s)
      | Fork_child_pid pid \<Rightarrow>
          (0, vlogf verb (Log_spawned pid)
                (s\<lparr>unreaped := unreaped s + 1, g_children := g_children s + 1\<rparr>)))"

definition on_sigint :: "state \<Rightarrow> state" where
  "on_sigint s = s\<lparr>g_stop := True\<rparr>"

text \<open>The body of the handler's loop, run once for each child that \<^verbatim>\<open>waitpid\<close> reaps.\<close>

definition on_child_exit :: "state \<Rightarrow> state" where
  "on_child_exit s = (if g_children s > 0 then s\<lparr>g_children := g_children s - 1\<rparr> else s)"

text \<open>
  \<^verbatim>\<open>on_sigchld\<close>, run when \<open>n\<close> children have terminated:
  \<^verbatim>\<open>waitpid(-1, &status, WNOHANG)\<close> returns the pid of one of them and takes it
  from the children of the program, as long as there is one; then it returns 0 or -1 and
  the loop ends.
\<close>

primrec on_sigchld :: "nat \<Rightarrow> state \<Rightarrow> state" where
  "on_sigchld 0 s = s"
| "on_sigchld (Suc n) s =
     (if 0 < unreaped s then on_sigchld n (on_child_exit (s\<lparr>unreaped := unreaped s - 1\<rparr>))
      else s)"

subsection \<open>Command-line flags\<close>

datatype startup = Exit_with int "msg list" | Configured app_config

text \<open>
  The loop over \<^verbatim>\<open>argv\<close> that starts \<^verbatim>\<open>main\<close>, from index \<open>i\<close>;
  \<^verbatim>\<open>argc\<close> is the length of the vector.
\<close>

function parse_args :: "string list \<Rightarrow> nat \<Rightarrow> app_config \<Rightarrow> startup" where
  "parse_args argv i c =
     (if i < length argv then
        (if argv ! i = ''--duration'' \<and> i + 1 < length argv then
           parse_args argv (i + 2) (c\<lparr>duration_ms := atoi (argv ! (i + 1))\<rparr>)
         else if argv ! i = ''--outdir'' \<and> i + 1 < length argv then
           parse_args argv (i + 2) (c\<lparr>out_dir := argv ! (i + 1)\<rparr>)
         else if argv ! i = ''--min-gap'' \<and> i + 1 < length argv then
           parse_args argv (i + 2) (c\<lparr>min_gap_ms := atoi (argv ! (i + 1))\<rparr>)
         else if argv ! i = ''--verbose'' then
           parse_args argv (i + 1) (c\<lparr>verbose := True\<rparr>)
         else if argv ! i = ''-h'' \<or> argv ! i = ''--help'' then
           Exit_with 0 [Log_usage]
         else Exit_with 1 [Log_unknown_arg (argv ! i), Log_usage])
      else Configured c)"
  by pat_completeness auto
termination
  by (relation "measure (\<lambda>(argv, i, c). length argv - i)") auto

subsection \<open>The command loop\<close>

record timespec =
  tv_sec :: int
  tv_nsec :: int

text \<open>C's division on integers truncates towards zero.\<close>

definition c_div :: "int \<Rightarrow> int \<Rightarrow> int" where
  "c_div a b = (if (a < 0) = (b < 0) then \<bar>a\<bar> div \<bar>b\<bar> else - (\<bar>a\<bar> div \<bar>b\<bar>))"

definition ms_since_start :: "timespec \<Rightarrow> timespec \<Rightarrow> int" where
  "ms_since_start prog_start now =
     (tv_sec now - tv_sec prog_start) * 1000 + c_div (tv_nsec now - tv_nsec prog_start) 1000000"

text \<open>
  The three ways a \<^verbatim>\<open>save\<close> command ends: in the debounce branch, in the
  branch taken while a recording is running, or with a call of
  \<^verbatim>\<open>spawn_recorder\<close> for the given duration.
\<close>

datatype decision = Debounced | Busy | Proceed int

text \<open>
  The \<^verbatim>\<open>save\<close> branch from the clock reading on: \<open>dur\<close> is the duration already
  chosen, \<open>ms\<close> the value of \<^verbatim>\<open>ms_since_start\<close>.
\<close>

definition save_cmd :: "app_config \<Rightarrow> int \<Rightarrow> int \<Rightarrow> fork_result \<Rightarrow> state \<Rightarrow> decision \<times> state" where
  "save_cmd c dur ms fr s =
     (if ms - last_ms_since_start s < min_gap_ms c then
        (Debounced, vlogf (verbose c) (Log_debounce (min_gap_ms c)) s)
      else
        (let s1 = s\<lparr>last_ms_since_start := ms\<rparr> in
         if g_children s1 > 0 then (Busy, vlogf (verbose c) Log_busy s1)
         else
           (let (rc, s2) = spawn_recorder dur (out_dir c) (verbose c) fr s1 in
            (Proceed dur, if rc \<noteq> 0 then logf Log_start_failed s2 else s2))))"

text \<open>The duration a \<^verbatim>\<open>save\<close> line asks for; \<open>cmd\<close> is the trimmed line.\<close>

definition is_blank :: "char \<Rightarrow> bool" where
  "is_blank c \<longleftrightarrow> c = CHR '' '' \<or> c = CHR 0x09"

definition save_duration :: "app_config \<Rightarrow> string \<Rightarrow> int" where
  "save_duration c cmd =
     (let dur = duration_ms c;
          arg = dropWhile is_blank (drop 4 cmd)
      in if arg \<noteq> [] then (let tmp = atoi arg in if tmp > 0 then tmp else dur) else dur)"

text \<open>What one iteration of the loop did with its line.\<close>

datatype action =
    Do_nothing
  | Do_quit
  | Do_status
  | Do_save decision
  | Do_help
  | Do_unknown

definition handle_line ::
  "app_config \<Rightarrow> timespec \<Rightarrow> string \<Rightarrow> timespec \<Rightarrow> fork_result \<Rightarrow> state \<Rightarrow> action \<times> state" where
  "handle_line c prog_start line now fr s =
     (let cmd = trim (c_str line) in
      if cmd = [] then (Do_nothing, s)
      else if strncmp_eq cmd ''quit'' 4 \<or> strncmp_eq cmd ''exit'' 4 then
        (Do_quit, logf Log_exiting s)
      else if strncmp_eq cmd ''status'' 6 then
        (Do_status, logf (Log_status (g_children s > 0)) s)
      else if strncmp_eq cmd ''save'' 4 then
        (let (d, s') = save_cmd c (save_duration c cmd) (ms_since_start prog_start now) fr s
         in (Do_save d, s'))
      else if strncmp_eq cmd ''help'' 4 \<or> strncmp_eq cmd ''?'' 1 then
        (Do_help, logf Log_commands s)
      else (Do_unknown, logf Log_type_hint (logf (Log_unknown_command cmd) s)))"

text \<open>
  What happens while the loop runs: a line is read (with the clock reading and the
  result of \<^verbatim>\<open>fork\<close> that its processing would obtain), or a signal is delivered.
  The end of the list is the end of the input.
\<close>

datatype event = Line string timespec fork_result | Sigint | Sigchld nat

fun command_loop :: "app_config \<Rightarrow> timespec \<Rightarrow> state \<Rightarrow> event list \<Rightarrow> state" where
  "command_loop c prog_start s [] = s"
| "command_loop c prog_start s (e # es) =
     (if g_stop s then s
      else
        (case e of
           Sigint \<Rightarrow> command_loop c prog_start (on_sigint s) es
         | Sigchld n \<Rightarrow> command_loop c prog_start (on_sigchld n s) es
         | Line line now fr \<Rightarrow>
             (case handle_line c prog_start line now fr s of
                (Do_quit, s') \<Rightarrow> s'
              | (_, s') \<Rightarrow> command_loop c prog_start s' es)))"

text \<open>
  The actions of the iterations of the loop, in order: the same recursion as
  \<^const>\<open>command_loop\<close>, collecting what each line read led to.
\<close>

fun loop_actions :: "app_config \<Rightarrow> timespec \<Rightarrow> state \<Rightarrow> event list \<Rightarrow> action list" where
  "loop_actions c prog_start s [] = []"
| "loop_actions c prog_start s (e # es) =
     (if g_stop s then []
      else
        (case e of
           Sigint \<Rightarrow> loop_actions c prog_start (on_sigint s) es
         | Sigchld n \<Rightarrow> loop_actions c prog_start (on_sigchld n s) es
         | Line line now fr \<Rightarrow>
             (case handle_line c prog_start line now fr s of
                (Do_quit, s') \<Rightarrow> [Do_quit]
              | (a, s') \<Rightarrow> a # loop_actions c prog_start s' es)))"

subsection \<open>Shutdown\<close>

text \<open>
  One pass of the loop \<^verbatim>\<open>while (g_children > 0)\<close> at the end of \<^verbatim>\<open>main\<close>,
  after its test has passed: the handlers that run while \<^verbatim>\<open>waitpid(-1, &status, 0)\<close>
  blocks, the value \<open>r\<close> that the call returns when the program has a child (a pid
  when a child has terminated, -1 when a signal has interrupted the call), and the
  handlers that run before the test is made again. Without a child the call returns -1.
  The decrement that follows a pid is not guarded by a test of its own.
\<close>

datatype handler_run = Run_sigchld nat | Run_sigint

fun run_handler :: "handler_run \<Rightarrow> state \<Rightarrow> state" where
  "run_handler (Run_sigchld n) s = on_sigchld n s"
| "run_handler Run_sigint s = on_sigint s"

definition run_handlers :: "handler_run list \<Rightarrow> state \<Rightarrow> state" where
  "run_handlers hs s = foldl (\<lambda>s h. run_handler h s) s hs"

datatype wait_event = Wait_pass "handler_run list" int "handler_run list"

definition waitpid_blocking :: "int \<Rightarrow> state \<Rightarrow> int \<times> state" where
  "waitpid_blocking r s =
     (if 0 < unreaped s then (r, if r > 0 then s\<lparr>unreaped := unreaped s - 1\<rparr> else s)
      else (- 1, s))"

fun wait_step :: "wait_event \<Rightarrow> state \<Rightarrow> state" where
  "wait_step (Wait_pass during r after) s =
     (let (pid, s1) = waitpid_blocking r (run_handlers during s);
          s2 = (if pid > 0 then s1\<lparr>g_children := g_children s1 - 1\<rparr> else s1)
      in run_handlers after s2)"

text \<open>
  The final loop of \<^verbatim>\<open>main\<close>: the test, then one pass. It may wait forever;
  \<open>None\<close> says that the loop is still waiting when the given passes are used up.
\<close>

fun wait_children :: "state \<Rightarrow> wait_event list \<Rightarrow> state option" where
  "wait_children s [] = (if g_children s > 0 then None else Some s)"
| "wait_children s (w # ws) =
     (if g_children s > 0 then wait_children (wait_step w s) ws else Some s)"

subsection \<open>The program\<close>

text \<open>
  \<^verbatim>\<open>main\<close>: the exit code and the output, or \<open>None\<close> while the program has not
  returned.
\<close>

definition start_state :: "app_config \<Rightarrow> state" where
  "start_state c =
     logf (Log_default_save (duration_ms c) (out_dir c)) (logf Log_banner state_init)"

definition main ::
  "string list \<Rightarrow> stat_result \<Rightarrow> bool \<Rightarrow> timespec \<Rightarrow> event list \<Rightarrow> wait_event list
     \<Rightarrow> (int \<times> msg list) option" where
  "main argv st mkdir_ok prog_start es ws =
     (case parse_args argv 1 cfg_init of
        Exit_with rc out \<Rightarrow> Some (rc, out)
      | Configured c \<Rightarrow>
          if ensure_dir st mkdir_ok \<noteq> 0 then Some (1, [Log_outdir_error (out_dir c)])
          else
            (let s0 = start_state c;
                 s1 = command_loop c prog_start s0 es
             in case wait_children s1 ws of
                  None \<Rightarrow> None
                | Some s2 \<Rightarrow> Some (0, stderr s2)))"

subsection \<open>Vocabulary of the statements\<close>

text \<open>
  The definitions of this subsection translate no code. They name what the properties
  below speak about: the number of terminated children a pass of the shutdown loop is
  offered, an
  argument that is a decimal numeral and its value, an argument in which
  \<^verbatim>\<open>atoi\<close> finds a number, and a run of complete command-line options.
\<close>

fun handler_reaps :: "handler_run \<Rightarrow> nat" where
  "handler_reaps (Run_sigchld n) = n"
| "handler_reaps Run_sigint = 0"

fun reaped :: "wait_event \<Rightarrow> nat" where
  "reaped (Wait_pass during r after) =
     sum_list (map handler_reaps during) + (if r > 0 then 1 else 0)
       + sum_list (map handler_reaps after)"

definition is_decimal :: "string \<Rightarrow> bool" where
  "is_decimal s \<longleftrightarrow> s \<noteq> [] \<and> list_all isdigit s"

definition decimal_value :: "string \<Rightarrow> int" where
  "decimal_value s = foldl (\<lambda>a ch. 10 * a + (int (of_char ch) - 48)) 0 s"

definition starts_number :: "string \<Rightarrow> bool" where
  "starts_number s =
     (case dropWhile isspace s of
        [] \<Rightarrow> False
      | ch # cs \<Rightarrow>
          isdigit ch
          \<or> ((ch = CHR ''-'' \<or> ch = CHR ''+'') \<and> (case cs of [] \<Rightarrow> False | d # _ \<Rightarrow> isdigit d)))"

fun complete_options :: "string list \<Rightarrow> bool" where
  "complete_options [] = True"
| "complete_options [a] = (a = ''--verbose'')"
| "complete_options (a # v # rest) =
     (if a = ''--duration'' \<or> a = ''--outdir'' \<or> a = ''--min-gap'' then complete_options rest
      else a = ''--verbose'' \<and> complete_options (v # rest))"

section \<open>Basic facts\<close>

declare parse_args.simps [simp del]

lemma g_children_logf [simp]: "g_children (logf m s) = g_children s"
  by (simp add: logf_def)

lemma g_children_vlogf [simp]: "g_children (vlogf b m s) = g_children s"
  by (simp add: vlogf_def)

lemma last_ms_logf [simp]: "last_ms_since_start (logf m s) = last_ms_since_start s"
  by (simp add: logf_def)

lemma last_ms_vlogf [simp]: "last_ms_since_start (vlogf b m s) = last_ms_since_start s"
  by (simp add: vlogf_def)

lemma unreaped_logf [simp]: "unreaped (logf m s) = unreaped s"
  by (simp add: logf_def)

lemma unreaped_vlogf [simp]: "unreaped (vlogf b m s) = unreaped s"
  by (simp add: vlogf_def)

lemma g_stop_logf [simp]: "g_stop (logf m s) = g_stop s"
  by (simp add: logf_def)

lemma g_stop_vlogf [simp]: "g_stop (vlogf b m s) = g_stop s"
  by (simp add: vlogf_def)

text \<open>The branch a \<^verbatim>\<open>save\<close> takes, and what it does to each variable.\<close>

lemma save_cmd_decision:
  "fst (save_cmd c dur ms fr s) =
     (if ms - last_ms_since_start s < min_gap_ms c then Debounced
      else if g_children s > 0 then Busy else Proceed dur)"
  by (simp add: save_cmd_def Let_def split: prod.split)

lemma save_cmd_last_ms:
  "last_ms_since_start (snd (save_cmd c dur ms fr s)) =
     (if ms - last_ms_since_start s < min_gap_ms c then last_ms_since_start s else ms)"
  by (simp add: save_cmd_def Let_def spawn_recorder_def split: prod.split fork_result.split)

lemma save_cmd_children:
  "g_children (snd (save_cmd c dur ms fr s)) =
     (if ms - last_ms_since_start s < min_gap_ms c \<or> g_children s > 0 \<or> fr = Fork_error
      then g_children s else g_children s + 1)"
  by (auto simp add: save_cmd_def Let_def spawn_recorder_def split: prod.split fork_result.split)

lemma save_cmd_unreaped:
  "unreaped (snd (save_cmd c dur ms fr s)) =
     (if ms - last_ms_since_start s < min_gap_ms c \<or> g_children s > 0 \<or> fr = Fork_error
      then unreaped s else unreaped s + 1)"
  by (auto simp add: save_cmd_def Let_def spawn_recorder_def split: prod.split fork_result.split)

lemma save_cmd_stop: "g_stop (snd (save_cmd c dur ms fr s)) = g_stop s"
  by (simp add: save_cmd_def Let_def spawn_recorder_def split: prod.split fork_result.split)

text \<open>A trimmed line that starts with \<^verbatim>\<open>save\<close> reaches the \<^verbatim>\<open>save\<close> branch.\<close>

lemma save_prefix_cases:
  assumes "take 4 cmd = ''save''"
  shows "cmd \<noteq> []" "\<not> strncmp_eq cmd ''quit'' 4" "\<not> strncmp_eq cmd ''exit'' 4"
    "\<not> strncmp_eq cmd ''status'' 6" "strncmp_eq cmd ''save'' 4"
proof -
  show "cmd \<noteq> []" using assms by auto
  show "\<not> strncmp_eq cmd ''quit'' 4" "\<not> strncmp_eq cmd ''exit'' 4" "strncmp_eq cmd ''save'' 4"
    using assms by (simp_all add: strncmp_eq_def)
  show "\<not> strncmp_eq cmd ''status'' 6"
  proof
    assume "strncmp_eq cmd ''status'' 6"
    then have "take 4 (take 6 cmd) = take 4 ''status''"
      by (simp only: strncmp_eq_def) simp
    then show False using assms by simp
  qed
qed

lemma handle_line_save:
  assumes "take 4 (trim (c_str line)) = ''save''"
  shows "handle_line c ps line now fr s =
           (Do_save (fst (save_cmd c (save_duration c (trim (c_str line)))
                            (ms_since_start ps now) fr s)),
            snd (save_cmd c (save_duration c (trim (c_str line)))
                   (ms_since_start ps now) fr s))"
  using save_prefix_cases [OF assms]
  by (simp add: handle_line_def Let_def split: prod.split)

lemma trim_save [simp]: "trim (c_str ''save'') = ''save''"
  by (simp add: trim_def c_str_def is_trim_char_def)

lemmas atoi_eval =
  atoi_def strtol_def int_cast_def LONG_MAX_def LONG_MIN_def isspace_def isdigit_def

lemmas eval_defs =
  handle_line_def trim_def c_str_def is_trim_char_def strncmp_eq_def save_cmd_def
  save_duration_def ms_since_start_def c_div_def cfg_init_def state_init_def
  spawn_recorder_def vlogf_def logf_def is_blank_def on_sigint_def on_child_exit_def Let_def
  run_handlers_def waitpid_blocking_def

section \<open>The count of running recorders\<close>

lemma on_child_exit_children:
  "g_children (on_child_exit s) = (if 0 < g_children s then g_children s - 1 else g_children s)"
  by (simp add: on_child_exit_def)

lemma on_child_exit_unreaped [simp]: "unreaped (on_child_exit s) = unreaped s"
  by (simp add: on_child_exit_def)

lemma on_sigchld_unreaped: "unreaped (on_sigchld n s) = unreaped s - n"
  by (induction n arbitrary: s) simp_all

lemma on_sigchld_children:
  "g_children (on_sigchld n s) =
     (if g_children s \<le> 0 then g_children s
      else max 0 (g_children s - int (min n (unreaped s))))"
proof (induction n arbitrary: s)
  case 0
  then show ?case by simp
next
  case (Suc n)
  show ?case
  proof (cases "0 < unreaped s")
    case True
    let ?s1 = "on_child_exit (s\<lparr>unreaped := unreaped s - 1\<rparr>)"
    have g1: "g_children ?s1 = (if 0 < g_children s then g_children s - 1 else g_children s)"
      and u1: "unreaped ?s1 = unreaped s - 1"
      by (simp_all add: on_child_exit_children)
    have m: "int (min (Suc n) (unreaped s)) = 1 + int (min n (unreaped s - 1))"
      using True by (auto simp add: min_def)
    have step: "on_sigchld (Suc n) s = on_sigchld n ?s1"
      using True by simp
    have "g_children (on_sigchld n ?s1) =
            (if g_children ?s1 \<le> 0 then g_children ?s1
             else max 0 (g_children ?s1 - int (min n (unreaped ?s1))))"
      by (rule Suc.IH)
    then show ?thesis
      unfolding step g1 u1 m by (auto simp add: max_def)
  next
    case False
    then show ?thesis by simp
  qed
qed

lemma on_sigint_children [simp]: "g_children (on_sigint s) = g_children s"
  by (simp add: on_sigint_def)

lemma on_sigint_unreaped [simp]: "unreaped (on_sigint s) = unreaped s"
  by (simp add: on_sigint_def)

lemma on_child_exit_stop [simp]: "g_stop (on_child_exit s) = g_stop s"
  by (simp add: on_child_exit_def)

lemma on_sigchld_stop [simp]: "g_stop (on_sigchld n s) = g_stop s"
  by (induction n arbitrary: s) simp_all

text \<open>A line leaves the two counts alone or, when it starts a recorder, adds one to both.\<close>

lemma handle_line_counts:
  "(g_children (snd (handle_line c ps line now fr s)) = g_children s
      \<and> unreaped (snd (handle_line c ps line now fr s)) = unreaped s)
   \<or> (g_children s \<le> 0
      \<and> g_children (snd (handle_line c ps line now fr s)) = g_children s + 1
      \<and> unreaped (snd (handle_line c ps line now fr s)) = unreaped s + 1)"
proof (cases "take 4 (trim (c_str line)) = ''save''")
  case True
  show ?thesis
    by (auto simp add: handle_line_save [OF True] save_cmd_children save_cmd_unreaped)
next
  case False
  then have "\<not> strncmp_eq (trim (c_str line)) ''save'' 4"
    by (simp add: strncmp_eq_def)
  then show ?thesis
    by (simp add: handle_line_def Let_def)
qed

lemma handle_line_children:
  "g_children (snd (handle_line c ps line now fr s)) = g_children s
   \<or> (g_children s \<le> 0 \<and> g_children (snd (handle_line c ps line now fr s)) = g_children s + 1)"
  using handle_line_counts [of c ps line now fr s] by auto

text \<open>
  What every line and every signal handler preserves holds when the loop ends, after any
  sequence of events.
\<close>

lemma command_loop_invariant:
  assumes "P s"
    and line: "\<And>s l now fr. P s \<Longrightarrow> P (snd (handle_line c ps l now fr s))"
    and chld: "\<And>s n. P s \<Longrightarrow> P (on_sigchld n s)"
    and intr: "\<And>s. P s \<Longrightarrow> P (on_sigint s)"
  shows "P (command_loop c ps s es)"
  using assms(1)
proof (induction es arbitrary: s)
  case Nil
  then show ?case by simp
next
  case (Cons e es)
  show ?case
  proof (cases e)
    case (Line l now fr)
    obtain a s' where h: "handle_line c ps l now fr s = (a, s')"
      by (cases "handle_line c ps l now fr s")
    have "P (snd (handle_line c ps l now fr s))"
      using Cons.prems by (rule line)
    then have b: "P s'" using h by simp
    from Cons.IH [OF b] b Cons.prems show ?thesis
      using Line h by (simp split: action.split)
  next
    case Sigint
    have b: "P (on_sigint s)"
      using Cons.prems by (rule intr)
    from Cons.IH [OF b] Cons.prems show ?thesis
      using Sigint by simp
  next
    case (Sigchld n)
    have b: "P (on_sigchld n s)"
      using Cons.prems by (rule chld)
    from Cons.IH [OF b] Cons.prems show ?thesis
      using Sigchld by simp
  qed
qed


lemma command_loop_at_most_one:
  assumes "g_children s \<le> 1"
  shows "g_children (command_loop c ps s es) \<le> 1"
proof (rule command_loop_invariant [where P = "\<lambda>s::state. g_children s \<le> 1"])
  show "g_children s \<le> 1" by (rule assms)
next
  fix s :: state and l now fr
  assume "g_children s \<le> 1"
  then show "g_children (snd (handle_line c ps l now fr s)) \<le> 1"
    using handle_line_children [of c ps l now fr s] by auto
next
  fix s :: state and n :: nat
  assume "g_children s \<le> 1"
  then show "g_children (on_sigchld n s) \<le> 1"
    by (simp add: on_sigchld_children)
next
  fix s :: state
  assume "g_children s \<le> 1"
  then show "g_children (on_sigint s) \<le> 1" by simp
qed

text \<open>
  The program counts every child it has: the children not yet waited for are never more
  than \<open>g_children\<close>. In the runs of the model the two numbers are even equal.
\<close>

lemma on_sigchld_counted:
  assumes "int (unreaped s) \<le> g_children s"
  shows "int (unreaped (on_sigchld n s)) \<le> g_children (on_sigchld n s)"
  using assms by (auto simp add: on_sigchld_children on_sigchld_unreaped min_def)

lemma on_sigchld_equal:
  assumes "g_children s = int (unreaped s)"
  shows "g_children (on_sigchld n s) = int (unreaped (on_sigchld n s))"
    and "g_children (on_sigchld n s) = max 0 (g_children s - int n)"
  using assms by (auto simp add: on_sigchld_children on_sigchld_unreaped min_def)


lemma command_loop_equal:
  assumes "g_children s = int (unreaped s)"
  shows "g_children (command_loop c ps s es) = int (unreaped (command_loop c ps s es))"
proof (rule command_loop_invariant [where P = "\<lambda>s::state. g_children s = int (unreaped s)"])
  show "g_children s = int (unreaped s)" by (rule assms)
next
  fix s :: state and l now fr
  assume "g_children s = int (unreaped s)"
  then show "g_children (snd (handle_line c ps l now fr s))
               = int (unreaped (snd (handle_line c ps l now fr s)))"
    using handle_line_counts [of c ps l now fr s] by auto
next
  fix s :: state and n :: nat
  assume "g_children s = int (unreaped s)"
  then show "g_children (on_sigchld n s) = int (unreaped (on_sigchld n s))"
    by (rule on_sigchld_equal)
next
  fix s :: state
  assume "g_children s = int (unreaped s)"
  then show "g_children (on_sigint s) = int (unreaped (on_sigint s))" by simp
qed

lemma start_state_children [simp]: "g_children (start_state c) = 0"
  by (simp add: start_state_def state_init_def)

lemma start_state_unreaped [simp]: "unreaped (start_state c) = 0"
  by (simp add: start_state_def state_init_def)

text \<open>The handlers that run during a pass of the shutdown loop.\<close>

lemma run_handler_counted:
  assumes "int (unreaped s) \<le> g_children s"
  shows "int (unreaped (run_handler h s)) \<le> g_children (run_handler h s)"
  using assms by (cases h) (simp_all add: on_sigchld_counted)

lemma run_handlers_counted:
  assumes "int (unreaped s) \<le> g_children s"
  shows "int (unreaped (run_handlers hs s)) \<le> g_children (run_handlers hs s)"
  using assms unfolding run_handlers_def
  by (induction hs arbitrary: s) (simp_all add: run_handler_counted)

lemma run_handler_equal:
  assumes "g_children s = int (unreaped s)"
  shows "g_children (run_handler h s) = int (unreaped (run_handler h s))"
    and "g_children (run_handler h s) = max 0 (g_children s - int (handler_reaps h))"
proof -
  show "g_children (run_handler h s) = int (unreaped (run_handler h s))"
  proof (cases h)
    case (Run_sigchld n)
    from on_sigchld_equal(1) [OF assms, of n] show ?thesis
      by (simp only: Run_sigchld run_handler.simps)
  next
    case Run_sigint
    then show ?thesis using assms by simp
  qed
  show "g_children (run_handler h s) = max 0 (g_children s - int (handler_reaps h))"
  proof (cases h)
    case (Run_sigchld n)
    from on_sigchld_equal(2) [OF assms, of n] show ?thesis
      by (simp only: Run_sigchld run_handler.simps handler_reaps.simps)
  next
    case Run_sigint
    then show ?thesis using assms by simp
  qed
qed

lemma run_handlers_equal:
  assumes "g_children s = int (unreaped s)"
  shows "g_children (run_handlers hs s) = int (unreaped (run_handlers hs s))
         \<and> g_children (run_handlers hs s)
             = max 0 (g_children s - int (sum_list (map handler_reaps hs)))"
  using assms unfolding run_handlers_def
proof (induction hs arbitrary: s)
  case Nil
  then show ?case by simp
next
  case (Cons h hs)
  from run_handler_equal [OF Cons.prems, of h]
  have e: "g_children (run_handler h s) = int (unreaped (run_handler h s))"
    and v: "g_children (run_handler h s) = max 0 (g_children s - int (handler_reaps h))"
    by simp_all
  from Cons.IH [OF e]
  have e': "g_children (foldl (\<lambda>s h. run_handler h s) (run_handler h s) hs)
              = int (unreaped (foldl (\<lambda>s h. run_handler h s) (run_handler h s) hs))"
    and v': "g_children (foldl (\<lambda>s h. run_handler h s) (run_handler h s) hs)
              = max 0 (g_children (run_handler h s) - int (sum_list (map handler_reaps hs)))"
    by simp_all
  have "max 0 (g_children (run_handler h s) - int (sum_list (map handler_reaps hs)))
          = max 0 (g_children s - int (sum_list (map handler_reaps (h # hs))))"
    unfolding v by (simp add: max_def)
  with e' v' show ?case by simp
qed


lemma wait_step_counted:
  assumes "int (unreaped s) \<le> g_children s"
  shows "int (unreaped (wait_step w s)) \<le> g_children (wait_step w s)"
proof (cases w)
  case (Wait_pass during r after)
  let ?s0 = "run_handlers during s"
  have c0: "int (unreaped ?s0) \<le> g_children ?s0"
    using assms by (rule run_handlers_counted)
  show ?thesis
  proof (cases "0 < unreaped ?s0 \<and> 0 < r")
    case True
    let ?s2 = "?s0\<lparr>unreaped := unreaped ?s0 - 1, g_children := g_children ?s0 - 1\<rparr>"
    have "int (unreaped ?s2) \<le> g_children ?s2"
      using c0 True by simp
    then have "int (unreaped (run_handlers after ?s2)) \<le> g_children (run_handlers after ?s2)"
      by (rule run_handlers_counted)
    then show ?thesis
      using True by (simp add: Wait_pass waitpid_blocking_def)
  next
    case False
    have "int (unreaped (run_handlers after ?s0)) \<le> g_children (run_handlers after ?s0)"
      using c0 by (rule run_handlers_counted)
    then show ?thesis
      using False by (auto simp add: Wait_pass waitpid_blocking_def)
  qed
qed

lemma wait_step_equal:
  assumes "g_children s = int (unreaped s)"
  shows "g_children (wait_step w s) = int (unreaped (wait_step w s))
         \<and> g_children (wait_step w s) = max 0 (g_children s - int (reaped w))"
proof (cases w)
  case (Wait_pass during r after)
  let ?s0 = "run_handlers during s"
  from run_handlers_equal [OF assms, of during]
  have e0: "g_children ?s0 = int (unreaped ?s0)"
    and v0: "g_children ?s0 = max 0 (g_children s - int (sum_list (map handler_reaps during)))"
    by simp_all
  show ?thesis
  proof (cases "0 < unreaped ?s0 \<and> 0 < r")
    case True
    let ?s2 = "?s0\<lparr>unreaped := unreaped ?s0 - 1, g_children := g_children ?s0 - 1\<rparr>"
    have e2: "g_children ?s2 = int (unreaped ?s2)"
      using e0 True by simp
    have v2: "g_children ?s2 = g_children ?s0 - 1" "0 < g_children ?s0"
      using e0 True by simp_all
    from run_handlers_equal [OF e2, of after] show ?thesis
      using True v0 v2 by (auto simp add: Wait_pass waitpid_blocking_def)
  next
    case False
    have z: "g_children ?s0 = 0 \<or> r \<le> 0"
      using False e0 by auto
    from run_handlers_equal [OF e0, of after] show ?thesis
      using False v0 z by (auto simp add: Wait_pass waitpid_blocking_def)
  qed
qed


lemma wait_children_Some:
  assumes "wait_children s ws = Some s'"
  shows "g_children s' \<le> 0"
  using assms by (induction ws arbitrary: s) (auto split: if_splits)

lemma wait_children_zero:
  assumes "int (unreaped s) \<le> g_children s" and "wait_children s ws = Some s'"
  shows "g_children s' = 0"
  using assms
proof (induction ws arbitrary: s)
  case Nil
  then show ?case by (auto split: if_splits)
next
  case (Cons w ws)
  show ?case
  proof (cases "0 < g_children s")
    case True
    have "int (unreaped (wait_step w s)) \<le> g_children (wait_step w s)"
      using Cons.prems(1) by (rule wait_step_counted)
    moreover have "wait_children (wait_step w s) ws = Some s'"
      using Cons.prems(2) True by simp
    ultimately show ?thesis by (rule Cons.IH)
  next
    case False
    then show ?thesis using Cons.prems by auto
  qed
qed

lemma wait_children_None:
  assumes "wait_children s ws = None"
  shows "0 < g_children (foldl (\<lambda>s w. wait_step w s) s ws)"
  using assms by (induction ws arbitrary: s) (auto split: if_splits)

lemma wait_children_returns:
  assumes "g_children s = int (unreaped s)"
    and "g_children s \<le> int (sum_list (map reaped ws))"
  shows "\<exists>s'. wait_children s ws = Some s'"
  using assms
proof (induction ws arbitrary: s)
  case Nil
  then show ?case by simp
next
  case (Cons w ws)
  show ?case
  proof (cases "0 < g_children s")
    case True
    from wait_step_equal [OF Cons.prems(1), of w]
    have e: "g_children (wait_step w s) = int (unreaped (wait_step w s))"
      and v: "g_children (wait_step w s) = max 0 (g_children s - int (reaped w))"
      by simp_all
    have "g_children (wait_step w s) \<le> int (sum_list (map reaped ws))"
      using v Cons.prems(2) by simp
    with e have "\<exists>s'. wait_children (wait_step w s) ws = Some s'"
      by (rule Cons.IH)
    then show ?thesis using True by simp
  next
    case False
    then show ?thesis by simp
  qed
qed

section \<open>The gates of a save command\<close>

text \<open>
  C1, as the code has it. The debounce test comes first in the \<^verbatim>\<open>save\<close> branch,
  so a \<^verbatim>\<open>save\<close> processed while a recording is running (\<open>g_children > 0\<close>) is
  always rejected and never starts a recorder, but the branch that rejects it depends
  on the elapsed time: the debounce branch when the command arrives less than
  \<open>min_gap_ms\<close> after the recorded trigger time, the "a recording is already
  running" branch otherwise.
\<close>

theorem save_while_recording_rejected:
  assumes "take 4 (trim (c_str line)) = ''save''" and "0 < g_children s"
  shows "fst (handle_line c ps line now fr s) =
           (if ms_since_start ps now - last_ms_since_start s < min_gap_ms c
            then Do_save Debounced else Do_save Busy)
         \<and> g_children (snd (handle_line c ps line now fr s)) = g_children s"
  using assms by (simp add: handle_line_save save_cmd_decision save_cmd_children)

theorem save_while_recording_rejected_witness:
  "take 4 (trim (c_str ''save'')) = ''save''
   \<and> 0 < g_children \<lparr>g_stop = False, g_children = 1, last_ms_since_start = 0, stderr = [],
       unreaped = 1\<rparr>
   \<and> fst (handle_line cfg_init \<lparr>tv_sec = 0, tv_nsec = 0\<rparr> ''save'' \<lparr>tv_sec = 2, tv_nsec = 0\<rparr>
          (Fork_child_pid 8)
          \<lparr>g_stop = False, g_children = 1, last_ms_since_start = 0, stderr = [],
       unreaped = 1\<rparr>)
       = Do_save Busy"
proof -
  have h1: "take 4 (trim (c_str ''save'')) = ''save''"
    by simp
  have h2: "0 < g_children \<lparr>g_stop = False, g_children = 1, last_ms_since_start = 0, stderr = [],
       unreaped = 1\<rparr>"
    by simp
  from save_while_recording_rejected [OF h1 h2, of cfg_init "\<lparr>tv_sec = 0, tv_nsec = 0\<rparr>"
      "\<lparr>tv_sec = 2, tv_nsec = 0\<rparr>" "Fork_child_pid 8"]
  show ?thesis
    using h1 h2 by (simp add: ms_since_start_def c_div_def cfg_init_def)
qed

text \<open>
  C1 as stated fails: a first \<^verbatim>\<open>save\<close> at program start launches a recorder, and a
  second \<^verbatim>\<open>save\<close> 100 ms later, with the recording running, ends in the debounce
  branch and not in the busy branch.
\<close>

theorem save_while_recording_busy_counterexample:
  "0 < g_children (snd (handle_line cfg_init \<lparr>tv_sec = 0, tv_nsec = 0\<rparr> ''save''
                          \<lparr>tv_sec = 0, tv_nsec = 0\<rparr> (Fork_child_pid 7) state_init))
   \<and> fst (handle_line cfg_init \<lparr>tv_sec = 0, tv_nsec = 0\<rparr> ''save''
            \<lparr>tv_sec = 0, tv_nsec = 100000000\<rparr> (Fork_child_pid 8)
            (snd (handle_line cfg_init \<lparr>tv_sec = 0, tv_nsec = 0\<rparr> ''save''
                    \<lparr>tv_sec = 0, tv_nsec = 0\<rparr> (Fork_child_pid 7) state_init)))
       = Do_save Debounced"
  by (simp add: eval_defs)

text \<open>
  C2, as the code has it. \<^verbatim>\<open>last_ms_since_start\<close> is assigned between the two
  tests: it is set to the arrival time exactly when the debounce test passes, whether or
  not a recording is running. A \<^verbatim>\<open>save\<close> rejected because a recording is running
  therefore leaves \<open>g_children\<close> and \<open>g_stop\<close> unchanged and sets
  \<^verbatim>\<open>last_ms_since_start\<close> to its arrival time.
\<close>

theorem save_busy_updates_last_trigger:
  assumes "take 4 (trim (c_str line)) = ''save''"
  shows "last_ms_since_start (snd (handle_line c ps line now fr s)) =
           (if ms_since_start ps now - last_ms_since_start s < min_gap_ms c
            then last_ms_since_start s else ms_since_start ps now)
         \<and> (fst (handle_line c ps line now fr s) = Do_save Busy \<longrightarrow>
              g_children (snd (handle_line c ps line now fr s)) = g_children s
              \<and> g_stop (snd (handle_line c ps line now fr s)) = g_stop s
              \<and> last_ms_since_start (snd (handle_line c ps line now fr s)) = ms_since_start ps now)"
  using assms
  by (simp add: handle_line_save save_cmd_decision save_cmd_children save_cmd_last_ms
      save_cmd_stop split: if_splits)

theorem save_busy_updates_last_trigger_witness:
  "take 4 (trim (c_str ''save'')) = ''save''
   \<and> fst (handle_line cfg_init \<lparr>tv_sec = 0, tv_nsec = 0\<rparr> ''save'' \<lparr>tv_sec = 2, tv_nsec = 0\<rparr>
          (Fork_child_pid 8)
          \<lparr>g_stop = False, g_children = 1, last_ms_since_start = 0, stderr = [],
       unreaped = 1\<rparr>) = Do_save Busy
   \<and> g_children (snd (handle_line cfg_init \<lparr>tv_sec = 0, tv_nsec = 0\<rparr> ''save''
          \<lparr>tv_sec = 2, tv_nsec = 0\<rparr> (Fork_child_pid 8)
          \<lparr>g_stop = False, g_children = 1, last_ms_since_start = 0, stderr = [],
       unreaped = 1\<rparr>)) = 1
   \<and> last_ms_since_start (snd (handle_line cfg_init \<lparr>tv_sec = 0, tv_nsec = 0\<rparr> ''save''
          \<lparr>tv_sec = 2, tv_nsec = 0\<rparr> (Fork_child_pid 8)
          \<lparr>g_stop = False, g_children = 1, last_ms_since_start = 0, stderr = [],
       unreaped = 1\<rparr>)) = 2000"
proof -
  have h1: "take 4 (trim (c_str ''save'')) = ''save''"
    by simp
  have busy: "fst (handle_line cfg_init \<lparr>tv_sec = 0, tv_nsec = 0\<rparr> ''save''
          \<lparr>tv_sec = 2, tv_nsec = 0\<rparr> (Fork_child_pid 8)
          \<lparr>g_stop = False, g_children = 1, last_ms_since_start = 0, stderr = [],
       unreaped = 1\<rparr>) = Do_save Busy"
    by (simp add: eval_defs)
  from save_busy_updates_last_trigger [OF h1, of cfg_init "\<lparr>tv_sec = 0, tv_nsec = 0\<rparr>"
      "\<lparr>tv_sec = 2, tv_nsec = 0\<rparr>" "Fork_child_pid 8"
      "\<lparr>g_stop = False, g_children = 1, last_ms_since_start = 0, stderr = [],
       unreaped = 1\<rparr>"]
  show ?thesis
    using h1 busy by (simp add: ms_since_start_def c_div_def)
qed

text \<open>
  C2 as stated fails: with a recording running since time 0, a \<^verbatim>\<open>save\<close> at
  1000 ms is rejected because a recording is running, and
  \<^verbatim>\<open>last_ms_since_start\<close> has changed from 0 to 1000.
\<close>

theorem save_busy_state_unchanged_counterexample:
  "fst (handle_line cfg_init \<lparr>tv_sec = 0, tv_nsec = 0\<rparr> ''save''
          \<lparr>tv_sec = 1, tv_nsec = 0\<rparr> (Fork_child_pid 8)
          (snd (handle_line cfg_init \<lparr>tv_sec = 0, tv_nsec = 0\<rparr> ''save''
                  \<lparr>tv_sec = 0, tv_nsec = 0\<rparr> (Fork_child_pid 7) state_init))) = Do_save Busy
   \<and> last_ms_since_start (snd (handle_line cfg_init \<lparr>tv_sec = 0, tv_nsec = 0\<rparr> ''save''
          \<lparr>tv_sec = 0, tv_nsec = 0\<rparr> (Fork_child_pid 7) state_init)) = 0
   \<and> last_ms_since_start (snd (handle_line cfg_init \<lparr>tv_sec = 0, tv_nsec = 0\<rparr> ''save''
          \<lparr>tv_sec = 1, tv_nsec = 0\<rparr> (Fork_child_pid 8)
          (snd (handle_line cfg_init \<lparr>tv_sec = 0, tv_nsec = 0\<rparr> ''save''
                  \<lparr>tv_sec = 0, tv_nsec = 0\<rparr> (Fork_child_pid 7) state_init)))) = 1000"
  by (simp add: eval_defs)

text \<open>The signal handlers leave the recorded trigger time alone.\<close>

lemma on_child_exit_last_ms [simp]: "last_ms_since_start (on_child_exit s) = last_ms_since_start s"
  by (simp add: on_child_exit_def)

lemma on_sigchld_last_ms [simp]: "last_ms_since_start (on_sigchld n s) = last_ms_since_start s"
  by (induction n arbitrary: s) simp_all

lemma on_sigint_last_ms [simp]: "last_ms_since_start (on_sigint s) = last_ms_since_start s"
  by (simp add: on_sigint_def)

section \<open>Debounce\<close>

text \<open>
  As long as every \<^verbatim>\<open>save\<close> arrives less than \<open>min_gap_ms\<close> after the recorded
  trigger time \<open>t\<close>, each one ends in the debounce branch and \<open>t\<close> stays recorded.
\<close>

lemma debounced_run:
  assumes "last_ms_since_start s = t"
    and "\<forall>e \<in> set es. case e of
              Line l now fr \<Rightarrow> take 4 (trim (c_str l)) = ''save''
                \<and> ms_since_start ps now - t < min_gap_ms c
            | _ \<Rightarrow> True"
  shows "set (loop_actions c ps s es) \<subseteq> {Do_save Debounced}"
  using assms
proof (induction es arbitrary: s)
  case Nil
  then show ?case by simp
next
  case (Cons e es)
  have rest: "\<forall>e \<in> set es. case e of
              Line l now fr \<Rightarrow> take 4 (trim (c_str l)) = ''save''
                \<and> ms_since_start ps now - t < min_gap_ms c
            | _ \<Rightarrow> True"
    using Cons.prems(2) by simp
  show ?case
  proof (cases e)
    case (Line l now fr)
    with Cons.prems have sv: "take 4 (trim (c_str l)) = ''save''"
      and gap: "ms_since_start ps now - last_ms_since_start s < min_gap_ms c"
      by simp_all
    let ?r = "save_cmd c (save_duration c (trim (c_str l))) (ms_since_start ps now) fr s"
    have d: "fst ?r = Debounced" using gap by (simp add: save_cmd_decision)
    have l: "last_ms_since_start (snd ?r) = t"
      using gap Cons.prems(1) by (simp add: save_cmd_last_ms)
    have "set (loop_actions c ps (snd ?r) es) \<subseteq> {Do_save Debounced}"
      using l rest by (rule Cons.IH)
    then show ?thesis
      using Line d by (simp add: handle_line_save [OF sv])
  next
    case Sigint
    have "last_ms_since_start (on_sigint s) = t"
      using Cons.prems(1) by simp
    then have "set (loop_actions c ps (on_sigint s) es) \<subseteq> {Do_save Debounced}"
      using rest by (rule Cons.IH)
    then show ?thesis using Sigint by simp
  next
    case (Sigchld n)
    have "last_ms_since_start (on_sigchld n s) = t"
      using Cons.prems(1) by simp
    then have "set (loop_actions c ps (on_sigchld n s) es) \<subseteq> {Do_save Debounced}"
      using rest by (rule Cons.IH)
    then show ?thesis using Sigchld by simp
  qed
qed

text \<open>
  When no signal arrives in between, every one of these lines is read, so the actions are
  exactly one debounced \<^verbatim>\<open>save\<close> for each line.
\<close>

lemma debounced_run_exact:
  assumes "last_ms_since_start s = t" and "\<not> g_stop s"
    and "\<forall>e \<in> set es. case e of
              Line l now fr \<Rightarrow> take 4 (trim (c_str l)) = ''save''
                \<and> ms_since_start ps now - t < min_gap_ms c
            | _ \<Rightarrow> False"
  shows "loop_actions c ps s es = replicate (length es) (Do_save Debounced)"
  using assms
proof (induction es arbitrary: s)
  case Nil
  then show ?case by simp
next
  case (Cons e es)
  have rest: "\<forall>e \<in> set es. case e of
              Line l now fr \<Rightarrow> take 4 (trim (c_str l)) = ''save''
                \<and> ms_since_start ps now - t < min_gap_ms c
            | _ \<Rightarrow> False"
    using Cons.prems(3) by simp
  show ?case
  proof (cases e)
    case (Line l now fr)
    with Cons.prems have sv: "take 4 (trim (c_str l)) = ''save''"
      and gap: "ms_since_start ps now - last_ms_since_start s < min_gap_ms c"
      by simp_all
    let ?r = "save_cmd c (save_duration c (trim (c_str l))) (ms_since_start ps now) fr s"
    have d: "fst ?r = Debounced" using gap by (simp add: save_cmd_decision)
    have l: "last_ms_since_start (snd ?r) = t"
      using gap Cons.prems(1) by (simp add: save_cmd_last_ms)
    have st: "\<not> g_stop (snd ?r)"
      using Cons.prems(2) by (simp add: save_cmd_stop)
    have "loop_actions c ps (snd ?r) es = replicate (length es) (Do_save Debounced)"
      using l st rest by (rule Cons.IH)
    then show ?thesis
      using Line d Cons.prems(2) by (simp add: handle_line_save [OF sv])
  next
    case Sigint
    with Cons.prems(3) show ?thesis by simp
  next
    case (Sigchld n)
    with Cons.prems(3) show ?thesis by simp
  qed
qed

text \<open>
  C3, as the code has it. The debounce test compares the arrival time with
  \<^verbatim>\<open>last_ms_since_start\<close>, the arrival time of the last command that passed the
  test, not with the arrival time of the command before. So for every sequence of
  \<^verbatim>\<open>save\<close> commands whose first command passes both tests and in which every
  later command arrives less than \<open>min_gap_ms\<close> after the first one, only the first
  is accepted and every later command read ends in the debounce branch, also when
  children exit or a stop signal arrives in between. When no signal arrives, every
  later command is read and debounced.
\<close>

theorem debounce_after_first_save:
  assumes "take 4 (trim (c_str l0)) = ''save''"
    and "\<not> g_stop s" and "g_children s \<le> 0"
    and "min_gap_ms c \<le> ms_since_start ps t0 - last_ms_since_start s"
    and "\<forall>e \<in> set es. case e of
              Line l now fr \<Rightarrow> take 4 (trim (c_str l)) = ''save''
                \<and> ms_since_start ps now - ms_since_start ps t0 < min_gap_ms c
            | _ \<Rightarrow> True"
  shows "\<exists>rest. loop_actions c ps s (Line l0 t0 fr0 # es)
             = Do_save (Proceed (save_duration c (trim (c_str l0)))) # rest
           \<and> set rest \<subseteq> {Do_save Debounced}
           \<and> ((\<forall>e \<in> set es. case e of Line l now fr \<Rightarrow> True | _ \<Rightarrow> False) \<longrightarrow>
                rest = replicate (length es) (Do_save Debounced))"
proof -
  let ?r = "save_cmd c (save_duration c (trim (c_str l0))) (ms_since_start ps t0) fr0 s"
  have d: "fst ?r = Proceed (save_duration c (trim (c_str l0)))"
    using assms(3,4) by (simp add: save_cmd_decision)
  have l: "last_ms_since_start (snd ?r) = ms_since_start ps t0"
    using assms(4) by (simp add: save_cmd_last_ms)
  have st: "\<not> g_stop (snd ?r)"
    using assms(2) by (simp add: save_cmd_stop)
  have sub: "set (loop_actions c ps (snd ?r) es) \<subseteq> {Do_save Debounced}"
    using l assms(5) by (rule debounced_run)
  have exact: "loop_actions c ps (snd ?r) es = replicate (length es) (Do_save Debounced)"
    if lines: "\<forall>e \<in> set es. case e of Line l now fr \<Rightarrow> True | _ \<Rightarrow> False"
  proof -
    have "\<forall>e \<in> set es. case e of
              Line l now fr \<Rightarrow> take 4 (trim (c_str l)) = ''save''
                \<and> ms_since_start ps now - ms_since_start ps t0 < min_gap_ms c
            | _ \<Rightarrow> False"
    proof
      fix e assume e: "e \<in> set es"
      with lines assms(5) show "case e of
              Line l now fr \<Rightarrow> take 4 (trim (c_str l)) = ''save''
                \<and> ms_since_start ps now - ms_since_start ps t0 < min_gap_ms c
            | _ \<Rightarrow> False"
        by (cases e) auto
    qed
    with l st show ?thesis by (rule debounced_run_exact)
  qed
  have first: "loop_actions c ps s (Line l0 t0 fr0 # es)
                 = Do_save (Proceed (save_duration c (trim (c_str l0))))
                     # loop_actions c ps (snd ?r) es"
    using d assms(2) by (simp add: handle_line_save [OF assms(1)])
  from first sub exact show ?thesis by blast
qed

theorem debounce_after_first_save_witness:
  "take 4 (trim (c_str ''save'')) = ''save''
   \<and> \<not> g_stop state_init \<and> g_children state_init \<le> 0
   \<and> min_gap_ms cfg_init \<le> ms_since_start \<lparr>tv_sec = 0, tv_nsec = 0\<rparr> \<lparr>tv_sec = 0, tv_nsec = 0\<rparr>
        - last_ms_since_start state_init
   \<and> ms_since_start \<lparr>tv_sec = 0, tv_nsec = 0\<rparr> \<lparr>tv_sec = 0, tv_nsec = 300000000\<rparr>
        - ms_since_start \<lparr>tv_sec = 0, tv_nsec = 0\<rparr> \<lparr>tv_sec = 0, tv_nsec = 0\<rparr> < min_gap_ms cfg_init
   \<and> (\<exists>rest. loop_actions cfg_init \<lparr>tv_sec = 0, tv_nsec = 0\<rparr> state_init
         [Line ''save'' \<lparr>tv_sec = 0, tv_nsec = 0\<rparr> (Fork_child_pid 7),
          Line ''save'' \<lparr>tv_sec = 0, tv_nsec = 300000000\<rparr> (Fork_child_pid 8),
          Sigchld 1,
          Line ''save'' \<lparr>tv_sec = 0, tv_nsec = 400000000\<rparr> (Fork_child_pid 9)]
        = Do_save (Proceed (save_duration cfg_init (trim (c_str ''save'')))) # rest
        \<and> set rest \<subseteq> {Do_save Debounced})
   \<and> loop_actions cfg_init \<lparr>tv_sec = 0, tv_nsec = 0\<rparr> state_init
         [Line ''save'' \<lparr>tv_sec = 0, tv_nsec = 0\<rparr> (Fork_child_pid 7),
          Line ''save'' \<lparr>tv_sec = 0, tv_nsec = 300000000\<rparr> (Fork_child_pid 8),
          Line ''save'' \<lparr>tv_sec = 0, tv_nsec = 400000000\<rparr> (Fork_child_pid 9)]
       = Do_save (Proceed (save_duration cfg_init (trim (c_str ''save''))))
           # replicate 2 (Do_save Debounced)"
proof -
  have h1: "take 4 (trim (c_str ''save'')) = ''save''"
    by simp
  have h2: "\<not> g_stop state_init" and h3: "g_children state_init \<le> 0"
    by (simp_all add: state_init_def)
  have h4: "min_gap_ms cfg_init \<le> ms_since_start \<lparr>tv_sec = 0, tv_nsec = 0\<rparr> \<lparr>tv_sec = 0, tv_nsec = 0\<rparr>
        - last_ms_since_start state_init"
    by (simp add: cfg_init_def state_init_def ms_since_start_def c_div_def)
  have h5: "\<forall>e \<in> set [Line ''save'' \<lparr>tv_sec = 0, tv_nsec = 300000000\<rparr> (Fork_child_pid 8),
          Sigchld 1,
          Line ''save'' \<lparr>tv_sec = 0, tv_nsec = 400000000\<rparr> (Fork_child_pid 9)]. case e of
              Line l now fr \<Rightarrow> take 4 (trim (c_str l)) = ''save''
                \<and> ms_since_start \<lparr>tv_sec = 0, tv_nsec = 0\<rparr> now
                    - ms_since_start \<lparr>tv_sec = 0, tv_nsec = 0\<rparr> \<lparr>tv_sec = 0, tv_nsec = 0\<rparr>
                    < min_gap_ms cfg_init
            | _ \<Rightarrow> True"
    by (simp add: cfg_init_def ms_since_start_def c_div_def)
  have h6: "ms_since_start \<lparr>tv_sec = 0, tv_nsec = 0\<rparr> \<lparr>tv_sec = 0, tv_nsec = 300000000\<rparr>
        - ms_since_start \<lparr>tv_sec = 0, tv_nsec = 0\<rparr> \<lparr>tv_sec = 0, tv_nsec = 0\<rparr> < min_gap_ms cfg_init"
    by (simp add: cfg_init_def ms_since_start_def c_div_def)
  let ?es2 = "[Line ''save'' \<lparr>tv_sec = 0, tv_nsec = 300000000\<rparr> (Fork_child_pid 8),
          Line ''save'' \<lparr>tv_sec = 0, tv_nsec = 400000000\<rparr> (Fork_child_pid 9)]"
  have k5: "\<forall>e \<in> set ?es2. case e of
              Line l now fr \<Rightarrow> take 4 (trim (c_str l)) = ''save''
                \<and> ms_since_start \<lparr>tv_sec = 0, tv_nsec = 0\<rparr> now
                    - ms_since_start \<lparr>tv_sec = 0, tv_nsec = 0\<rparr> \<lparr>tv_sec = 0, tv_nsec = 0\<rparr>
                    < min_gap_ms cfg_init
            | _ \<Rightarrow> True"
    by (simp add: cfg_init_def ms_since_start_def c_div_def)
  have k6: "\<forall>e \<in> set ?es2. case e of Line l now fr \<Rightarrow> True | _ \<Rightarrow> False"
    by simp
  from debounce_after_first_save [OF h1 h2 h3 h4 k5, of "Fork_child_pid 7"] k6
  obtain rest where
    "loop_actions cfg_init \<lparr>tv_sec = 0, tv_nsec = 0\<rparr> state_init
         (Line ''save'' \<lparr>tv_sec = 0, tv_nsec = 0\<rparr> (Fork_child_pid 7) # ?es2)
       = Do_save (Proceed (save_duration cfg_init (trim (c_str ''save'')))) # rest"
    and "rest = replicate (length ?es2) (Do_save Debounced)"
    by blast
  moreover have "length ?es2 = 2"
    by simp
  ultimately have exact: "loop_actions cfg_init \<lparr>tv_sec = 0, tv_nsec = 0\<rparr> state_init
         [Line ''save'' \<lparr>tv_sec = 0, tv_nsec = 0\<rparr> (Fork_child_pid 7),
          Line ''save'' \<lparr>tv_sec = 0, tv_nsec = 300000000\<rparr> (Fork_child_pid 8),
          Line ''save'' \<lparr>tv_sec = 0, tv_nsec = 400000000\<rparr> (Fork_child_pid 9)]
       = Do_save (Proceed (save_duration cfg_init (trim (c_str ''save''))))
           # replicate 2 (Do_save Debounced)"
    by (simp only:)
  from debounce_after_first_save [OF h1 h2 h3 h4 h5, of "Fork_child_pid 7"]
  have "\<exists>rest. loop_actions cfg_init \<lparr>tv_sec = 0, tv_nsec = 0\<rparr> state_init
         [Line ''save'' \<lparr>tv_sec = 0, tv_nsec = 0\<rparr> (Fork_child_pid 7),
          Line ''save'' \<lparr>tv_sec = 0, tv_nsec = 300000000\<rparr> (Fork_child_pid 8),
          Sigchld 1,
          Line ''save'' \<lparr>tv_sec = 0, tv_nsec = 400000000\<rparr> (Fork_child_pid 9)]
        = Do_save (Proceed (save_duration cfg_init (trim (c_str ''save'')))) # rest
        \<and> set rest \<subseteq> {Do_save Debounced}"
    by blast
  with h1 h2 h3 h4 h6 exact show ?thesis
    by blast
qed

text \<open>
  C3 as stated fails. With the default gap of 500 ms, three \<^verbatim>\<open>save\<close> commands
  at 0, 300 and 600 ms each arrive 300 ms after the one before. The third is 600 ms after
  the first, passes the debounce test and is rejected because the recording is running;
  when the first recording has ended by then, the third is accepted.
\<close>

theorem debounce_chain_counterexample:
  "loop_actions cfg_init \<lparr>tv_sec = 0, tv_nsec = 0\<rparr> state_init
     [Line ''save'' \<lparr>tv_sec = 0, tv_nsec = 0\<rparr> (Fork_child_pid 7),
      Line ''save'' \<lparr>tv_sec = 0, tv_nsec = 300000000\<rparr> (Fork_child_pid 8),
      Line ''save'' \<lparr>tv_sec = 0, tv_nsec = 600000000\<rparr> (Fork_child_pid 9)]
     = [Do_save (Proceed 10000), Do_save Debounced, Do_save Busy]
   \<and> loop_actions cfg_init \<lparr>tv_sec = 0, tv_nsec = 0\<rparr> state_init
     [Line ''save 100'' \<lparr>tv_sec = 0, tv_nsec = 0\<rparr> (Fork_child_pid 7),
      Line ''save'' \<lparr>tv_sec = 0, tv_nsec = 300000000\<rparr> (Fork_child_pid 8),
      Sigchld 1,
      Line ''save'' \<lparr>tv_sec = 0, tv_nsec = 600000000\<rparr> (Fork_child_pid 9)]
     = [Do_save (Proceed 100), Do_save Debounced, Do_save (Proceed 10000)]"
  by (simp add: eval_defs atoi_eval)

text \<open>
  With a gap of at most 1000000 ms, the first \<^verbatim>\<open>save\<close> passes the debounce test
  whenever it arrives.
\<close>

lemma first_save_passes_moderate_gap:
  assumes "take 4 (trim (c_str line)) = ''save''"
    and "min_gap_ms c \<le> 1000000" and "0 \<le> ms_since_start ps now"
  shows "fst (handle_line c ps line now fr state_init)
           = Do_save (Proceed (save_duration c (trim (c_str line))))"
proof -
  have "last_ms_since_start state_init = - 1000000" "g_children state_init = 0"
    by (simp_all add: state_init_def)
  then show ?thesis
    using assms(2,3) by (simp add: handle_line_save [OF assms(1)] save_cmd_decision)
qed

text \<open>
  C7. The comment at the initialisation of \<^verbatim>\<open>last_ms_since_start\<close> says
  "allow immediate first trigger", but the initial value is \<open>-1000000\<close> and not a
  value that no gap can reach. Started with \<^verbatim>\<open>--min-gap 2000000\<close>, the program
  sends the very first \<^verbatim>\<open>save\<close>, typed 5 seconds after the start, into the
  debounce branch: \<open>5000 - (-1000000) < 2000000\<close>.
\<close>

theorem first_save_debounced_with_large_gap:
  "parse_args [''cam_trigger'', ''--min-gap'', ''2000000''] 1 cfg_init
     = Configured (cfg_init\<lparr>min_gap_ms := 2000000\<rparr>)
   \<and> loop_actions (cfg_init\<lparr>min_gap_ms := 2000000\<rparr>) \<lparr>tv_sec = 100, tv_nsec = 0\<rparr> state_init
       [Line ''save'' \<lparr>tv_sec = 105, tv_nsec = 0\<rparr> (Fork_child_pid 7)] = [Do_save Debounced]"
  by (simp add: eval_defs parse_args.simps atoi_eval)

section \<open>Reaping, spawn failure and shutdown\<close>



text \<open>
  C5. When a \<^verbatim>\<open>save\<close> passes both tests and \<^verbatim>\<open>fork\<close> fails, the count
  is never incremented and is 0 afterwards, the two error lines are written, and the
  loop is not stopped. The loop goes on with the commands that follow: its actions are
  the accepted \<^verbatim>\<open>save\<close> followed by the actions on the rest of the input from the
  state the failure has left, and a \<^verbatim>\<open>save\<close> that arrives at least
  \<open>min_gap_ms\<close> later passes both tests again and, when its \<^verbatim>\<open>fork\<close> succeeds,
  leaves the loop with one recorder counted and its own arrival time recorded.
\<close>

theorem spawn_failure_keeps_count:
  assumes "take 4 (trim (c_str line)) = ''save''"
    and "\<not> g_stop s" and "0 \<le> g_children s"
    and "fst (handle_line c ps line now Fork_error s) = Do_save (Proceed d)"
  shows "g_children (snd (handle_line c ps line now Fork_error s)) = 0
         \<and> stderr (snd (handle_line c ps line now Fork_error s))
             = stderr s @ [Log_fork_failed, Log_start_failed]
         \<and> \<not> g_stop (snd (handle_line c ps line now Fork_error s))
         \<and> loop_actions c ps s (Line line now Fork_error # es)
             = Do_save (Proceed d)
                 # loop_actions c ps (snd (handle_line c ps line now Fork_error s)) es
         \<and> command_loop c ps s (Line line now Fork_error # es)
             = command_loop c ps (snd (handle_line c ps line now Fork_error s)) es
         \<and> (\<forall>line2 now2 fr2.
               take 4 (trim (c_str line2)) = ''save''
               \<and> min_gap_ms c \<le> ms_since_start ps now2 - ms_since_start ps now
               \<longrightarrow> fst (handle_line c ps line2 now2 fr2 (snd (handle_line c ps line now Fork_error s)))
                     = Do_save (Proceed (save_duration c (trim (c_str line2))))
                 \<and> loop_actions c ps s [Line line now Fork_error, Line line2 now2 fr2]
                     = [Do_save (Proceed d), Do_save (Proceed (save_duration c (trim (c_str line2))))]
                 \<and> last_ms_since_start
                       (command_loop c ps s [Line line now Fork_error, Line line2 now2 fr2])
                     = ms_since_start ps now2
                 \<and> g_children (command_loop c ps s [Line line now Fork_error, Line line2 now2 fr2])
                     = (if fr2 = Fork_error then 0 else 1))"
proof -
  obtain s' where hl2: "handle_line c ps line now Fork_error s = (Do_save (Proceed d), s')"
    using assms(4) by (cases "handle_line c ps line now Fork_error s") simp
  then have s'_def: "s' = snd (handle_line c ps line now Fork_error s)"
    by simp
  let ?dur = "save_duration c (trim (c_str line))"
  let ?ms = "ms_since_start ps now"
  note hl = handle_line_save [OF assms(1), of c ps now Fork_error s]
  have dec: "fst (save_cmd c ?dur ?ms Fork_error s) = Proceed d"
    using assms(4) by (simp add: hl)
  then have gate: "\<not> ?ms - last_ms_since_start s < min_gap_ms c" "\<not> 0 < g_children s"
    by (simp_all add: save_cmd_decision split: if_splits)
  have s': "s' = snd (save_cmd c ?dur ?ms Fork_error s)"
    by (simp add: s'_def hl)
  have g: "g_children s' = 0"
    using gate assms(3) by (simp add: s' save_cmd_children)
  have l: "last_ms_since_start s' = ?ms"
    using gate by (simp add: s' save_cmd_last_ms)
  have err: "stderr s' = stderr s @ [Log_fork_failed, Log_start_failed]"
    using gate by (simp add: s' save_cmd_def spawn_recorder_def logf_def Let_def)
  have stop: "\<not> g_stop s'"
    using assms(2) by (simp add: s' save_cmd_stop)
  have acts: "loop_actions c ps s (Line line now Fork_error # es)
             = Do_save (Proceed d) # loop_actions c ps s' es" for es
    using assms(2) by (simp add: hl2)
  have loop: "command_loop c ps s (Line line now Fork_error # es) = command_loop c ps s' es"
    for es
    using assms(2) by (simp add: hl2)
  have nxt: "fst (handle_line c ps line2 now2 fr2 s')
                     = Do_save (Proceed (save_duration c (trim (c_str line2))))
                 \<and> loop_actions c ps s [Line line now Fork_error, Line line2 now2 fr2]
                     = [Do_save (Proceed d), Do_save (Proceed (save_duration c (trim (c_str line2))))]
                 \<and> last_ms_since_start
                       (command_loop c ps s [Line line now Fork_error, Line line2 now2 fr2])
                     = ms_since_start ps now2
                 \<and> g_children (command_loop c ps s [Line line now Fork_error, Line line2 now2 fr2])
                     = (if fr2 = Fork_error then 0 else 1)"
    if sv: "take 4 (trim (c_str line2)) = ''save''"
      and gap: "min_gap_ms c \<le> ms_since_start ps now2 - ms_since_start ps now"
    for line2 now2 fr2
  proof -
    let ?d2 = "save_duration c (trim (c_str line2))"
    define r2 where "r2 = save_cmd c ?d2 (ms_since_start ps now2) fr2 s'"
    note h2 = handle_line_save [OF sv, of c ps now2 fr2 s']
    have d2: "fst r2 = Proceed ?d2"
      using gap g l by (simp add: r2_def save_cmd_decision)
    have first: "fst (handle_line c ps line2 now2 fr2 s') = Do_save (Proceed ?d2)"
      using d2 by (simp add: h2 r2_def)
    have pair2: "handle_line c ps line2 now2 fr2 s' = (Do_save (Proceed ?d2), snd r2)"
      using d2 by (simp add: h2 r2_def)
    have a2: "loop_actions c ps s [Line line now Fork_error, Line line2 now2 fr2]
                = [Do_save (Proceed d), Do_save (Proceed ?d2)]"
      unfolding acts using stop by (simp add: pair2)
    have end2: "command_loop c ps s [Line line now Fork_error, Line line2 now2 fr2] = snd r2"
      unfolding loop using stop by (simp add: pair2)
    have l2: "last_ms_since_start (snd r2) = ms_since_start ps now2"
      using gap l by (simp add: r2_def save_cmd_last_ms)
    have g2: "g_children (snd r2) = (if fr2 = Fork_error then 0 else 1)"
      using gap g l by (simp add: r2_def save_cmd_children)
    from first a2 l2 g2 show ?thesis
      by (simp only: end2 simp_thms)
  qed
  from nxt have later: "\<forall>line2 now2 fr2.
               take 4 (trim (c_str line2)) = ''save''
               \<and> min_gap_ms c \<le> ms_since_start ps now2 - ms_since_start ps now
               \<longrightarrow> fst (handle_line c ps line2 now2 fr2 s')
                     = Do_save (Proceed (save_duration c (trim (c_str line2))))
                 \<and> loop_actions c ps s [Line line now Fork_error, Line line2 now2 fr2]
                     = [Do_save (Proceed d), Do_save (Proceed (save_duration c (trim (c_str line2))))]
                 \<and> last_ms_since_start
                       (command_loop c ps s [Line line now Fork_error, Line line2 now2 fr2])
                     = ms_since_start ps now2
                 \<and> g_children (command_loop c ps s [Line line now Fork_error, Line line2 now2 fr2])
                     = (if fr2 = Fork_error then 0 else 1)"
    by (intro allI impI) (elim conjE)
  show ?thesis
    unfolding hl2 snd_conv
    by (intro conjI) (rule g, rule err, rule stop, rule acts, rule loop, rule later)
qed

theorem spawn_failure_keeps_count_witness:
  "take 4 (trim (c_str ''save'')) = ''save''
   \<and> \<not> g_stop state_init \<and> 0 \<le> g_children state_init
   \<and> fst (handle_line cfg_init \<lparr>tv_sec = 0, tv_nsec = 0\<rparr> ''save'' \<lparr>tv_sec = 0, tv_nsec = 0\<rparr>
          Fork_error state_init) = Do_save (Proceed 10000)
   \<and> g_children (snd (handle_line cfg_init \<lparr>tv_sec = 0, tv_nsec = 0\<rparr> ''save''
          \<lparr>tv_sec = 0, tv_nsec = 0\<rparr> Fork_error state_init)) = 0
   \<and> stderr (snd (handle_line cfg_init \<lparr>tv_sec = 0, tv_nsec = 0\<rparr> ''save''
          \<lparr>tv_sec = 0, tv_nsec = 0\<rparr> Fork_error state_init)) = [Log_fork_failed, Log_start_failed]
   \<and> min_gap_ms cfg_init \<le> ms_since_start \<lparr>tv_sec = 0, tv_nsec = 0\<rparr> \<lparr>tv_sec = 0, tv_nsec = 500000000\<rparr>
          - ms_since_start \<lparr>tv_sec = 0, tv_nsec = 0\<rparr> \<lparr>tv_sec = 0, tv_nsec = 0\<rparr>
   \<and> loop_actions cfg_init \<lparr>tv_sec = 0, tv_nsec = 0\<rparr> state_init
        [Line ''save'' \<lparr>tv_sec = 0, tv_nsec = 0\<rparr> Fork_error,
         Line ''save'' \<lparr>tv_sec = 0, tv_nsec = 500000000\<rparr> (Fork_child_pid 7)]
       = [Do_save (Proceed 10000), Do_save (Proceed 10000)]
   \<and> command_loop cfg_init \<lparr>tv_sec = 0, tv_nsec = 0\<rparr> state_init
        [Line ''save'' \<lparr>tv_sec = 0, tv_nsec = 0\<rparr> Fork_error,
         Line ''save'' \<lparr>tv_sec = 0, tv_nsec = 500000000\<rparr> (Fork_child_pid 7)]
       = \<lparr>g_stop = False, g_children = 1, last_ms_since_start = 500,
          stderr = [Log_fork_failed, Log_start_failed], unreaped = 1\<rparr>"
proof -
  have h1: "take 4 (trim (c_str ''save'')) = ''save''"
    by simp
  have h2: "\<not> g_stop state_init" and h3: "0 \<le> g_children state_init"
    by (simp_all add: state_init_def)
  have h4: "fst (handle_line cfg_init \<lparr>tv_sec = 0, tv_nsec = 0\<rparr> ''save'' \<lparr>tv_sec = 0, tv_nsec = 0\<rparr>
          Fork_error state_init) = Do_save (Proceed 10000)"
    by (simp add: eval_defs)
  have h5: "min_gap_ms cfg_init \<le> ms_since_start \<lparr>tv_sec = 0, tv_nsec = 0\<rparr> \<lparr>tv_sec = 0, tv_nsec = 500000000\<rparr>
          - ms_since_start \<lparr>tv_sec = 0, tv_nsec = 0\<rparr> \<lparr>tv_sec = 0, tv_nsec = 0\<rparr>"
    by (simp add: cfg_init_def ms_since_start_def c_div_def)
  have e: "stderr state_init = []"
    by (simp add: state_init_def)
  have d: "save_duration cfg_init (trim (c_str ''save'')) = 10000"
    by (simp add: save_duration_def cfg_init_def)
  have fin: "command_loop cfg_init \<lparr>tv_sec = 0, tv_nsec = 0\<rparr> state_init
        [Line ''save'' \<lparr>tv_sec = 0, tv_nsec = 0\<rparr> Fork_error,
         Line ''save'' \<lparr>tv_sec = 0, tv_nsec = 500000000\<rparr> (Fork_child_pid 7)]
       = \<lparr>g_stop = False, g_children = 1, last_ms_since_start = 500,
          stderr = [Log_fork_failed, Log_start_failed], unreaped = 1\<rparr>"
    by (simp add: eval_defs)
  from spawn_failure_keeps_count [OF h1 h2 h3 h4, of "[]"]
  have "loop_actions cfg_init \<lparr>tv_sec = 0, tv_nsec = 0\<rparr> state_init
        [Line ''save'' \<lparr>tv_sec = 0, tv_nsec = 0\<rparr> Fork_error,
         Line ''save'' \<lparr>tv_sec = 0, tv_nsec = 500000000\<rparr> (Fork_child_pid 7)]
       = [Do_save (Proceed 10000), Do_save (Proceed 10000)]"
    using h1 h5 d by simp
  moreover from spawn_failure_keeps_count [OF h1 h2 h3 h4, of "[]"]
  have "g_children (snd (handle_line cfg_init \<lparr>tv_sec = 0, tv_nsec = 0\<rparr> ''save''
          \<lparr>tv_sec = 0, tv_nsec = 0\<rparr> Fork_error state_init)) = 0
   \<and> stderr (snd (handle_line cfg_init \<lparr>tv_sec = 0, tv_nsec = 0\<rparr> ''save''
          \<lparr>tv_sec = 0, tv_nsec = 0\<rparr> Fork_error state_init)) = [Log_fork_failed, Log_start_failed]"
    using e by simp
  ultimately show ?thesis
    using h1 h2 h3 h4 h5 fin by blast
qed

text \<open>
  When the shutdown loop returns, it does so at the first point at which the count is
  no longer positive.
\<close>

lemma wait_children_first_zero:
  assumes "wait_children s ws = Some s'"
  shows "\<exists>k\<le>length ws. s' = foldl (\<lambda>s w. wait_step w s) s (take k ws)
           \<and> g_children s' \<le> 0
           \<and> (\<forall>j<k. 0 < g_children (foldl (\<lambda>s w. wait_step w s) s (take j ws)))"
  using assms
proof (induction ws arbitrary: s)
  case Nil
  then show ?case by (auto split: if_splits)
next
  case (Cons w ws)
  show ?case
  proof (cases "0 < g_children s")
    case True
    then have "wait_children (wait_step w s) ws = Some s'"
      using Cons.prems by simp
    from Cons.IH [OF this] obtain k where k: "k \<le> length ws"
      "s' = foldl (\<lambda>s w. wait_step w s) (wait_step w s) (take k ws)"
      "g_children s' \<le> 0"
      "\<forall>j<k. 0 < g_children (foldl (\<lambda>s w. wait_step w s) (wait_step w s) (take j ws))"
      by blast
    have "\<forall>j<Suc k. 0 < g_children (foldl (\<lambda>s w. wait_step w s) s (take j (w # ws)))"
    proof (intro allI impI)
      fix j assume "j < Suc k"
      then show "0 < g_children (foldl (\<lambda>s w. wait_step w s) s (take j (w # ws)))"
        using True k(4) by (cases j) simp_all
    qed
    with k(1,2,3) show ?thesis
      by (intro exI [of _ "Suc k"]) simp
  next
    case False
    then have "s' = s" using Cons.prems by simp
    with False show ?thesis
      by (intro exI [of _ 0]) simp
  qed
qed

lemma main_configured:
  assumes "parse_args argv 1 cfg_init = Configured c" and "ensure_dir st mkdir_ok = 0"
  shows "main argv st mkdir_ok ps es ws =
           (case wait_children (command_loop c ps (start_state c) es) ws of
              None \<Rightarrow> None
            | Some s2 \<Rightarrow> Some (0, stderr s2))"
  using assms by (simp add: main_def Let_def)

text \<open>
  C6. Once the flags are accepted and the output directory is there, \<^verbatim>\<open>main\<close>
  returns only through the loop that waits for the children. Whenever it returns, the
  exit code is 0, \<open>g_children\<close> is 0, and the count was positive at every earlier
  point of the wait: the program has blocked until the count reached zero. And it does
  return as soon as one child has been reaped, by \<^verbatim>\<open>waitpid\<close> in the loop or by
  the handler.
\<close>

theorem shutdown_waits_for_children:
  assumes "parse_args argv 1 cfg_init = Configured c" and "ensure_dir st mkdir_ok = 0"
  shows "(\<forall>rc out. main argv st mkdir_ok ps es ws = Some (rc, out) \<longrightarrow>
            rc = 0
            \<and> (\<exists>k\<le>length ws.
                  g_children (foldl (\<lambda>s w. wait_step w s) (command_loop c ps (start_state c) es)
                                (take k ws)) = 0
                  \<and> out = stderr (foldl (\<lambda>s w. wait_step w s)
                                    (command_loop c ps (start_state c) es) (take k ws))
                  \<and> (\<forall>j<k. 0 < g_children (foldl (\<lambda>s w. wait_step w s)
                                             (command_loop c ps (start_state c) es) (take j ws)))))
         \<and> (1 \<le> sum_list (map reaped ws) \<longrightarrow> (\<exists>out. main argv st mkdir_ok ps es ws = Some (0, out)))"
proof -
  let ?s1 = "command_loop c ps (start_state c) es"
  note m = main_configured [OF assms, of ps es ws]
  have cnt: "g_children ?s1 = int (unreaped ?s1)"
    by (rule command_loop_equal) simp
  then have nonneg: "int (unreaped ?s1) \<le> g_children ?s1"
    by simp
  have le1: "g_children ?s1 \<le> 1"
    by (rule command_loop_at_most_one) simp
  have a: "rc = 0 \<and> (\<exists>k\<le>length ws.
                  g_children (foldl (\<lambda>s w. wait_step w s) ?s1 (take k ws)) = 0
                  \<and> out = stderr (foldl (\<lambda>s w. wait_step w s) ?s1 (take k ws))
                  \<and> (\<forall>j<k. 0 < g_children (foldl (\<lambda>s w. wait_step w s) ?s1 (take j ws))))"
    if "main argv st mkdir_ok ps es ws = Some (rc, out)" for rc out
  proof -
    from that m obtain s2 where s2: "wait_children ?s1 ws = Some s2" "rc = 0" "out = stderr s2"
      by (auto split: option.splits)
    from wait_children_zero [OF nonneg s2(1)] have z: "g_children s2 = 0" .
    from wait_children_first_zero [OF s2(1)] obtain k where "k \<le> length ws"
      "s2 = foldl (\<lambda>s w. wait_step w s) ?s1 (take k ws)"
      "\<forall>j<k. 0 < g_children (foldl (\<lambda>s w. wait_step w s) ?s1 (take j ws))"
      by blast
    with z s2(2,3) show ?thesis by blast
  qed
  have b: "\<exists>out. main argv st mkdir_ok ps es ws = Some (0, out)" if "1 \<le> sum_list (map reaped ws)"
  proof -
    have "g_children ?s1 \<le> int (sum_list (map reaped ws))"
      using le1 that by simp
    from wait_children_returns [OF cnt this] obtain s' where "wait_children ?s1 ws = Some s'" ..
    then show ?thesis by (simp add: m)
  qed
  from a b show ?thesis by blast
qed

theorem shutdown_waits_for_children_witness:
  "parse_args [''cam_trigger''] 1 cfg_init = Configured cfg_init
   \<and> ensure_dir Stat_is_dir False = 0
   \<and> main [''cam_trigger''] Stat_is_dir False \<lparr>tv_sec = 0, tv_nsec = 0\<rparr>
          [Line ''save'' \<lparr>tv_sec = 1, tv_nsec = 0\<rparr> (Fork_child_pid 7),
           Line ''quit'' \<lparr>tv_sec = 2, tv_nsec = 0\<rparr> Fork_error]
          [Wait_pass [] 7 []]
       = Some (0, [Log_banner, Log_default_save 10000 ''/mnt/ssd/clips'', Log_exiting])
   \<and> 1 \<le> sum_list (map reaped [Wait_pass [] 7 []])
   \<and> (\<exists>k\<le>length [Wait_pass [] 7 []].
         g_children (foldl (\<lambda>s w. wait_step w s)
            (command_loop cfg_init \<lparr>tv_sec = 0, tv_nsec = 0\<rparr> (start_state cfg_init)
               [Line ''save'' \<lparr>tv_sec = 1, tv_nsec = 0\<rparr> (Fork_child_pid 7),
                Line ''quit'' \<lparr>tv_sec = 2, tv_nsec = 0\<rparr> Fork_error])
            (take k [Wait_pass [] 7 []])) = 0
         \<and> (\<forall>j<k. 0 < g_children (foldl (\<lambda>s w. wait_step w s)
            (command_loop cfg_init \<lparr>tv_sec = 0, tv_nsec = 0\<rparr> (start_state cfg_init)
               [Line ''save'' \<lparr>tv_sec = 1, tv_nsec = 0\<rparr> (Fork_child_pid 7),
                Line ''quit'' \<lparr>tv_sec = 2, tv_nsec = 0\<rparr> Fork_error])
            (take j [Wait_pass [] 7 []]))))"
proof -
  have h1: "parse_args [''cam_trigger''] 1 cfg_init = Configured cfg_init"
    by (simp add: parse_args.simps)
  have h2: "ensure_dir Stat_is_dir False = 0"
    by (simp add: ensure_dir_def)
  have m: "main [''cam_trigger''] Stat_is_dir False \<lparr>tv_sec = 0, tv_nsec = 0\<rparr>
          [Line ''save'' \<lparr>tv_sec = 1, tv_nsec = 0\<rparr> (Fork_child_pid 7),
           Line ''quit'' \<lparr>tv_sec = 2, tv_nsec = 0\<rparr> Fork_error]
          [Wait_pass [] 7 []]
       = Some (0, [Log_banner, Log_default_save 10000 ''/mnt/ssd/clips'', Log_exiting])"
    by (simp add: main_def parse_args.simps ensure_dir_def start_state_def eval_defs)
  have r: "1 \<le> sum_list (map reaped [Wait_pass [] 7 []])"
    by simp
  from shutdown_waits_for_children [OF h1 h2, of "\<lparr>tv_sec = 0, tv_nsec = 0\<rparr>"
      "[Line ''save'' \<lparr>tv_sec = 1, tv_nsec = 0\<rparr> (Fork_child_pid 7),
        Line ''quit'' \<lparr>tv_sec = 2, tv_nsec = 0\<rparr> Fork_error]" "[Wait_pass [] 7 []]"] m
  have "\<exists>k\<le>length [Wait_pass [] 7 []].
         g_children (foldl (\<lambda>s w. wait_step w s)
            (command_loop cfg_init \<lparr>tv_sec = 0, tv_nsec = 0\<rparr> (start_state cfg_init)
               [Line ''save'' \<lparr>tv_sec = 1, tv_nsec = 0\<rparr> (Fork_child_pid 7),
                Line ''quit'' \<lparr>tv_sec = 2, tv_nsec = 0\<rparr> Fork_error])
            (take k [Wait_pass [] 7 []])) = 0
         \<and> (\<forall>j<k. 0 < g_children (foldl (\<lambda>s w. wait_step w s)
            (command_loop cfg_init \<lparr>tv_sec = 0, tv_nsec = 0\<rparr> (start_state cfg_init)
               [Line ''save'' \<lparr>tv_sec = 1, tv_nsec = 0\<rparr> (Fork_child_pid 7),
                Line ''quit'' \<lparr>tv_sec = 2, tv_nsec = 0\<rparr> Fork_error])
            (take j [Wait_pass [] 7 []])))"
    by blast
  with h1 h2 m r show ?thesis by blast
qed


section \<open>The duration argument\<close>

text \<open>What \<^verbatim>\<open>strtol\<close> and \<^verbatim>\<open>atoi\<close> return on numerals and on text without a number.\<close>

lemma isdigit_not_isspace: "isdigit ch \<Longrightarrow> \<not> isspace ch"
  by (auto simp add: isdigit_def isspace_def)

lemma isdigit_not_sign: "isdigit ch \<Longrightarrow> ch \<noteq> CHR ''-'' \<and> ch \<noteq> CHR ''+''"
  by (auto simp add: isdigit_def)

lemma isdigit_not_blank: "isdigit ch \<Longrightarrow> \<not> is_blank ch"
  by (auto simp add: isdigit_def is_blank_def)

lemma digits_value_prefix:
  assumes "list_all isdigit ds" and "t = [] \<or> \<not> isdigit (hd t)"
  shows "digits_value acc (ds @ t) = foldl (\<lambda>a ch. 10 * a + (int (of_char ch) - 48)) acc ds"
  using assms
proof (induction ds arbitrary: acc)
  case Nil
  then show ?case by (cases t) simp_all
next
  case (Cons d ds)
  then show ?case by simp
qed

lemma foldl_digits_nonneg:
  assumes "list_all isdigit ds" and "0 \<le> acc"
  shows "0 \<le> foldl (\<lambda>a ch. 10 * a + (int (of_char ch) - 48)) acc ds"
  using assms
proof (induction ds arbitrary: acc)
  case Nil
  then show ?case by simp
next
  case (Cons d ds)
  from Cons.prems have d: "isdigit d" and ds: "list_all isdigit ds"
    by simp_all
  from d have "48 \<le> (of_char d :: nat)"
    by (simp add: isdigit_def)
  then have "0 \<le> 10 * acc + (int (of_char d) - 48)"
    using Cons.prems(2) by simp
  from Cons.IH [OF ds this] show ?case by simp
qed

lemma decimal_value_nonneg: "is_decimal ds \<Longrightarrow> 0 \<le> decimal_value ds"
  by (simp add: is_decimal_def decimal_value_def foldl_digits_nonneg)

lemma strtol_numeral:
  assumes "is_decimal ds" and "t = [] \<or> \<not> isdigit (hd t)"
  shows "strtol (ds @ t) = min LONG_MAX (decimal_value ds)"
proof -
  from assms(1) obtain d ds' where ds: "ds = d # ds'" and d: "isdigit d"
    and all: "list_all isdigit ds"
    by (cases ds) (auto simp add: is_decimal_def)
  have dw: "dropWhile isspace (ds @ t) = d # ds' @ t"
    using d by (simp add: ds isdigit_not_isspace)
  have dv: "digits_value 0 (d # ds' @ t) = decimal_value ds"
    unfolding decimal_value_def using digits_value_prefix [OF all assms(2), of 0]
    by (simp only: ds append_Cons)
  show ?thesis
    unfolding strtol_def dw list.case dv [symmetric]
    using isdigit_not_sign [OF d] by (simp only: if_False)
qed

lemma strtol_minus_numeral:
  assumes "is_decimal ds" and "t = [] \<or> \<not> isdigit (hd t)"
  shows "strtol (CHR ''-'' # ds @ t) = max LONG_MIN (- decimal_value ds)"
proof -
  have all: "list_all isdigit ds" using assms(1) by (simp add: is_decimal_def)
  have dw: "dropWhile isspace (CHR ''-'' # ds @ t) = CHR ''-'' # ds @ t"
    by (simp add: isspace_def)
  have dv: "digits_value 0 (ds @ t) = decimal_value ds"
    unfolding decimal_value_def using all assms(2) by (rule digits_value_prefix)
  show ?thesis
    unfolding strtol_def dw list.case dv by simp
qed

lemma digits_value_no_digit: "cs = [] \<or> \<not> isdigit (hd cs) \<Longrightarrow> digits_value acc cs = acc"
  by (cases cs) auto

lemma strtol_no_number:
  assumes "\<not> starts_number s"
  shows "strtol s = 0"
proof (cases "dropWhile isspace s")
  case Nil
  show ?thesis unfolding strtol_def Nil by simp
next
  case (Cons ch cs)
  with assms have nd: "\<not> isdigit ch"
    and sg: "ch = CHR ''-'' \<or> ch = CHR ''+'' \<Longrightarrow> cs = [] \<or> \<not> isdigit (hd cs)"
    by (auto simp add: starts_number_def split: list.splits)
  have "digits_value 0 (ch # cs) = 0"
    using nd by simp
  moreover have "digits_value 0 cs = 0" if "ch = CHR ''-'' \<or> ch = CHR ''+''"
    using sg [OF that] by (rule digits_value_no_digit)
  ultimately show ?thesis
    unfolding strtol_def Cons by (auto simp add: LONG_MAX_def LONG_MIN_def)
qed

lemma int_cast_in_range:
  assumes "- 2147483648 \<le> v" and "v \<le> 2147483647"
  shows "int_cast v = v"
proof -
  have "(v + 2147483648) mod 4294967296 = v + 2147483648"
    using assms by (intro mod_pos_pos_trivial) simp_all
  then show ?thesis by (simp add: int_cast_def)
qed

lemma atoi_numeral:
  assumes "is_decimal ds" and "t = [] \<or> \<not> isdigit (hd t)"
  shows "atoi (ds @ t) = int_cast (min LONG_MAX (decimal_value ds))"
  by (simp only: atoi_def strtol_numeral [OF assms])

lemma atoi_numeral_in_range:
  assumes "is_decimal ds" and "t = [] \<or> \<not> isdigit (hd t)" and "decimal_value ds \<le> INT_MAX"
  shows "atoi (ds @ t) = decimal_value ds"
proof -
  have "min LONG_MAX (decimal_value ds) = decimal_value ds"
    using assms(3) by (simp add: INT_MAX_def LONG_MAX_def)
  moreover have "int_cast (decimal_value ds) = decimal_value ds"
    using assms(3) decimal_value_nonneg [OF assms(1)]
    by (intro int_cast_in_range) (simp_all add: INT_MAX_def)
  ultimately show ?thesis
    by (simp only: atoi_numeral [OF assms(1,2)])
qed

lemma atoi_minus_numeral_in_range:
  assumes "is_decimal ds" and "t = [] \<or> \<not> isdigit (hd t)"
    and "decimal_value ds \<le> INT_MAX + 1"
  shows "atoi (CHR ''-'' # ds @ t) = - decimal_value ds"
proof -
  have "max LONG_MIN (- decimal_value ds) = - decimal_value ds"
    using assms(3) by (simp add: INT_MAX_def LONG_MIN_def)
  moreover have "int_cast (- decimal_value ds) = - decimal_value ds"
    using assms(3) decimal_value_nonneg [OF assms(1)]
    by (intro int_cast_in_range) (simp_all add: INT_MAX_def)
  ultimately show ?thesis
    by (simp only: atoi_def strtol_minus_numeral [OF assms(1,2)])
qed

lemma atoi_no_number:
  assumes "\<not> starts_number s"
  shows "atoi s = 0"
  by (simp add: atoi_def strtol_no_number [OF assms] int_cast_def)

text \<open>The duration of a \<^verbatim>\<open>save\<close> line with an argument.\<close>

lemma save_duration_arg:
  assumes "list_all is_blank sp" and "arg \<noteq> []" and "\<not> is_blank (hd arg)"
  shows "save_duration c (''save'' @ sp @ arg) = (if 0 < atoi arg then atoi arg else duration_ms c)"
proof -
  have "dropWhile is_blank (sp @ arg) = dropWhile is_blank arg"
    using assms(1) by (intro dropWhile_append2) (simp add: list_all_iff)
  also have "\<dots> = arg"
    using assms(2,3) by (cases arg) simp_all
  finally show ?thesis
    using assms(2) by (simp add: save_duration_def Let_def)
qed

lemma is_decimal_head: "is_decimal ds \<Longrightarrow> ds \<noteq> [] \<and> \<not> is_blank (hd ds)"
  by (cases ds) (auto simp add: is_decimal_def isdigit_not_blank)

text \<open>
  C8, as the code has it. The argument of a \<^verbatim>\<open>save\<close> line is what follows
  \<^verbatim>\<open>save\<close> and the blanks after it, and \<^verbatim>\<open>atoi\<close> reads it: an optional sign
  and the digits that follow, reduced to an \<^verbatim>\<open>int\<close>; what comes after the digits
  is ignored. When the value \<^verbatim>\<open>atoi\<close> returns is positive it is the duration of
  this recording, otherwise the configured default is used. So an argument that starts
  with a decimal numeral from 1 to \<open>INT_MAX\<close> gives that value, whatever follows the
  numeral; one that starts with the numeral 0 or with a negative numeral down to
  \<open>- INT_MAX - 1\<close>, and one in which \<^verbatim>\<open>atoi\<close> finds no number, give the default.
  The configuration is not changed: a \<^verbatim>\<open>save\<close> without argument uses the default
  again. The duration chosen is the one handed to \<^verbatim>\<open>spawn_recorder\<close> when both
  tests pass.
\<close>

theorem save_duration_override:
  assumes "list_all is_blank sp" and "t = [] \<or> \<not> isdigit (hd t)"
  shows "(arg \<noteq> [] \<and> \<not> is_blank (hd arg) \<longrightarrow>
            save_duration c (''save'' @ sp @ arg)
              = (if 0 < atoi arg then atoi arg else duration_ms c))
         \<and> (is_decimal num \<longrightarrow>
            atoi (num @ t) = int_cast (min LONG_MAX (decimal_value num)))
         \<and> (is_decimal pos \<and> 0 < decimal_value pos \<and> decimal_value pos \<le> INT_MAX \<longrightarrow>
            save_duration c (''save'' @ sp @ pos @ t) = decimal_value pos)
         \<and> (is_decimal zero \<and> decimal_value zero = 0 \<longrightarrow>
            save_duration c (''save'' @ sp @ zero @ t) = duration_ms c)
         \<and> (is_decimal neg \<and> decimal_value neg \<le> INT_MAX + 1 \<longrightarrow>
            save_duration c (''save'' @ sp @ CHR ''-'' # neg @ t) = duration_ms c)
         \<and> (bad \<noteq> [] \<and> \<not> is_blank (hd bad) \<and> \<not> starts_number bad \<longrightarrow>
            save_duration c (''save'' @ sp @ bad) = duration_ms c)
         \<and> save_duration c ''save'' = duration_ms c
         \<and> (take 4 (trim (c_str line)) = ''save''
            \<and> min_gap_ms c \<le> ms_since_start ps now - last_ms_since_start s \<and> g_children s \<le> 0 \<longrightarrow>
            fst (handle_line c ps line now fr s)
              = Do_save (Proceed (save_duration c (trim (c_str line)))))"
proof -
  note sp = assms(1) and t = assms(2)
  have c1: "save_duration c (''save'' @ sp @ arg)
              = (if 0 < atoi arg then atoi arg else duration_ms c)"
    if "arg \<noteq> []" "\<not> is_blank (hd arg)"
    using sp that by (rule save_duration_arg)
  have c2: "atoi (num @ t) = int_cast (min LONG_MAX (decimal_value num))" if "is_decimal num"
    using that t by (rule atoi_numeral)
  have c3: "save_duration c (''save'' @ sp @ pos @ t) = decimal_value pos"
    if "is_decimal pos" "0 < decimal_value pos" "decimal_value pos \<le> INT_MAX"
  proof -
    from is_decimal_head [OF that(1)] have "pos @ t \<noteq> []" "\<not> is_blank (hd (pos @ t))"
      by simp_all
    from save_duration_arg [OF sp this, of c] show ?thesis
      using that(2) by (simp only: atoi_numeral_in_range [OF that(1) t that(3)] if_True)
  qed
  have c4: "save_duration c (''save'' @ sp @ zero @ t) = duration_ms c"
    if "is_decimal zero" "decimal_value zero = 0"
  proof -
    from is_decimal_head [OF that(1)]
    have ne: "zero @ t \<noteq> []" and nb: "\<not> is_blank (hd (zero @ t))"
      by simp_all
    have z: "atoi (zero @ t) = 0"
      using atoi_numeral_in_range [OF that(1) t] that(2) by (simp add: INT_MAX_def)
    from save_duration_arg [OF sp ne nb, of c] show ?thesis
      by (simp only: z less_irrefl if_False)
  qed
  have c5: "save_duration c (''save'' @ sp @ CHR ''-'' # neg @ t) = duration_ms c"
    if "is_decimal neg" "decimal_value neg \<le> INT_MAX + 1"
  proof -
    have "CHR ''-'' # neg @ t \<noteq> []" "\<not> is_blank (hd (CHR ''-'' # neg @ t))"
      by (simp_all add: is_blank_def)
    from save_duration_arg [OF sp this, of c] have
      "save_duration c (''save'' @ sp @ CHR ''-'' # neg @ t) =
         (if 0 < - decimal_value neg then - decimal_value neg else duration_ms c)"
      by (simp only: atoi_minus_numeral_in_range [OF that(1) t that(2)])
    also have "\<dots> = duration_ms c"
      using decimal_value_nonneg [OF that(1)] by simp
    finally show ?thesis .
  qed
  have c6: "save_duration c (''save'' @ sp @ bad) = duration_ms c"
    if "bad \<noteq> []" "\<not> is_blank (hd bad)" "\<not> starts_number bad"
    using save_duration_arg [OF sp that(1,2), of c]
    by (simp only: atoi_no_number [OF that(3)] less_irrefl if_False)
  have c7: "save_duration c ''save'' = duration_ms c"
    by (simp add: save_duration_def)
  have c8: "fst (handle_line c ps line now fr s)
              = Do_save (Proceed (save_duration c (trim (c_str line))))"
    if "take 4 (trim (c_str line)) = ''save''"
      "min_gap_ms c \<le> ms_since_start ps now - last_ms_since_start s" "g_children s \<le> 0"
    using that(2,3) by (simp add: handle_line_save [OF that(1)] save_cmd_decision)
  from c1 c2 c3 c4 c5 c6 c7 c8 show ?thesis by blast
qed

theorem save_duration_override_witness:
  "list_all is_blank '' '' \<and> (''abc'' = [] \<or> \<not> isdigit (hd ''abc''))
   \<and> ''15000abc'' \<noteq> [] \<and> \<not> is_blank (hd ''15000abc'')
   \<and> is_decimal ''15000'' \<and> 0 < decimal_value ''15000'' \<and> decimal_value ''15000'' \<le> INT_MAX
   \<and> save_duration cfg_init ''save 15000abc'' = 15000
   \<and> is_decimal ''0'' \<and> decimal_value ''0'' = 0
   \<and> save_duration cfg_init ''save 0abc'' = 10000
   \<and> is_decimal ''5'' \<and> decimal_value ''5'' \<le> INT_MAX + 1
   \<and> save_duration cfg_init ''save -5abc'' = 10000
   \<and> ''abc'' \<noteq> [] \<and> \<not> is_blank (hd ''abc'') \<and> \<not> starts_number ''abc''
   \<and> save_duration cfg_init ''save abc'' = 10000
   \<and> take 4 (trim (c_str ''save 15000'')) = ''save''
   \<and> min_gap_ms cfg_init \<le> ms_since_start \<lparr>tv_sec = 0, tv_nsec = 0\<rparr> \<lparr>tv_sec = 3, tv_nsec = 0\<rparr>
        - last_ms_since_start state_init
   \<and> g_children state_init \<le> 0
   \<and> fst (handle_line cfg_init \<lparr>tv_sec = 0, tv_nsec = 0\<rparr> ''save 15000'' \<lparr>tv_sec = 3, tv_nsec = 0\<rparr>
          (Fork_child_pid 7) state_init)
       = Do_save (Proceed (save_duration cfg_init (trim (c_str ''save 15000''))))"
proof -
  have sp: "list_all is_blank '' ''"
    by (simp add: is_blank_def)
  have t: "''abc'' = [] \<or> \<not> isdigit (hd ''abc'')"
    by (simp add: isdigit_def)
  have a: "''15000abc'' \<noteq> []" "\<not> is_blank (hd ''15000abc'')"
    by (simp_all add: is_blank_def)
  have p: "is_decimal ''15000''" "0 < decimal_value ''15000''" "decimal_value ''15000'' \<le> INT_MAX"
    and z: "is_decimal ''0''" "decimal_value ''0'' = 0"
    and n: "is_decimal ''5''" "decimal_value ''5'' \<le> INT_MAX + 1"
    by (simp_all add: is_decimal_def isdigit_def decimal_value_def INT_MAX_def)
  have b: "''abc'' \<noteq> []" "\<not> is_blank (hd ''abc'')" "\<not> starts_number ''abc''"
    by (simp_all add: is_blank_def starts_number_def isspace_def isdigit_def)
  have l: "take 4 (trim (c_str ''save 15000'')) = ''save''"
    by (simp add: trim_def c_str_def is_trim_char_def)
  have g: "min_gap_ms cfg_init \<le> ms_since_start \<lparr>tv_sec = 0, tv_nsec = 0\<rparr> \<lparr>tv_sec = 3, tv_nsec = 0\<rparr>
        - last_ms_since_start state_init" "g_children state_init \<le> 0"
    by (simp_all add: cfg_init_def state_init_def ms_since_start_def c_div_def)
  have v: "decimal_value ''15000'' = 15000" "duration_ms cfg_init = 10000"
    by (simp_all add: decimal_value_def cfg_init_def)
  from save_duration_override [OF sp t, of "''15000abc''" cfg_init "''15000''" "''15000''"
      "''0''" "''5''" "''abc''" "''save 15000''" "\<lparr>tv_sec = 0, tv_nsec = 0\<rparr>"
      "\<lparr>tv_sec = 3, tv_nsec = 0\<rparr>" state_init "Fork_child_pid 7"]
  show ?thesis
    using sp t a p z n b l g v by (simp add: int_cast_def LONG_MAX_def)
qed

text \<open>
  C8 as stated fails. \<^verbatim>\<open>save 4294967297\<close> carries a positive integer and records for
  1 ms, because \<^verbatim>\<open>atoi\<close> keeps the low 32 bits; \<^verbatim>\<open>save -4294967295\<close> carries
  a negative integer and overrides the default, with 1 ms, for the same reason; and
  \<^verbatim>\<open>save 1e3\<close>, whose argument is not an integer, records for 1 ms and not for the
  default, because \<^verbatim>\<open>atoi\<close> stops at the first character that is not a digit.
\<close>

theorem save_duration_override_counterexample:
  "fst (handle_line cfg_init \<lparr>tv_sec = 0, tv_nsec = 0\<rparr> ''save 4294967297''
          \<lparr>tv_sec = 3, tv_nsec = 0\<rparr> (Fork_child_pid 7) state_init) = Do_save (Proceed 1)
   \<and> fst (handle_line cfg_init \<lparr>tv_sec = 0, tv_nsec = 0\<rparr> ''save -4294967295''
          \<lparr>tv_sec = 3, tv_nsec = 0\<rparr> (Fork_child_pid 7) state_init) = Do_save (Proceed 1)
   \<and> fst (handle_line cfg_init \<lparr>tv_sec = 0, tv_nsec = 0\<rparr> ''save 1e3''
          \<lparr>tv_sec = 3, tv_nsec = 0\<rparr> (Fork_child_pid 7) state_init) = Do_save (Proceed 1)
   \<and> duration_ms cfg_init = 10000"
  by (simp add: eval_defs atoi_eval)

section \<open>Command-line flags\<close>

text \<open>One pass of the loop over \<^verbatim>\<open>argv\<close>, at the argument \<open>a\<close>.\<close>

lemma parse_args_at:
  "parse_args (front @ a # rest) (length front) c =
     (if a = ''--duration'' \<and> rest \<noteq> [] then
        parse_args (front @ a # rest) (length front + 2) (c\<lparr>duration_ms := atoi (hd rest)\<rparr>)
      else if a = ''--outdir'' \<and> rest \<noteq> [] then
        parse_args (front @ a # rest) (length front + 2) (c\<lparr>out_dir := hd rest\<rparr>)
      else if a = ''--min-gap'' \<and> rest \<noteq> [] then
        parse_args (front @ a # rest) (length front + 2) (c\<lparr>min_gap_ms := atoi (hd rest)\<rparr>)
      else if a = ''--verbose'' then
        parse_args (front @ a # rest) (length front + 1) (c\<lparr>verbose := True\<rparr>)
      else if a = ''-h'' \<or> a = ''--help'' then Exit_with 0 [Log_usage]
      else Exit_with 1 [Log_unknown_arg a, Log_usage])"
  by (subst parse_args.simps) (cases rest; simp add: nth_append)

lemma parse_args_value_flag:
  assumes "a = ''--duration'' \<or> a = ''--outdir'' \<or> a = ''--min-gap''"
  shows "\<exists>c1. parse_args (front @ a # v # rest) (length front) c
              = parse_args ((front @ [a, v]) @ rest) (length (front @ [a, v])) c1"
proof -
  have ne: "v # rest \<noteq> []" by simp
  have eq: "(front @ [a, v]) @ rest = front @ a # v # rest" by simp
  have len: "length (front @ [a, v]) = length front + 2" by simp
  from assms show ?thesis
  proof (elim disjE)
    assume a: "a = ''--duration''"
    show ?thesis
      unfolding eq len by (subst parse_args_at) (simp add: a, rule exI, rule refl)
  next
    assume a: "a = ''--outdir''"
    show ?thesis
      unfolding eq len by (subst parse_args_at) (simp add: a, rule exI, rule refl)
  next
    assume a: "a = ''--min-gap''"
    show ?thesis
      unfolding eq len by (subst parse_args_at) (simp add: a, rule exI, rule refl)
  qed
qed

lemma parse_args_verbose:
  "parse_args (front @ ''--verbose'' # rest) (length front) c
     = parse_args ((front @ [''--verbose'']) @ rest) (length (front @ [''--verbose'']))
         (c\<lparr>verbose := True\<rparr>)"
proof -
  have eq: "(front @ [''--verbose'']) @ rest = front @ ''--verbose'' # rest" by simp
  have len: "length (front @ [''--verbose'']) = length front + 1" by simp
  show ?thesis
    unfolding eq len by (subst parse_args_at) simp
qed


text \<open>A run of complete options is consumed, whatever its values are.\<close>

lemma parse_args_skip:
  assumes "complete_options pre"
  shows "\<exists>c'. parse_args (front @ pre @ rest) (length front) c
               = parse_args ((front @ pre) @ rest) (length (front @ pre)) c'"
  using assms
proof (induction pre arbitrary: front c rule: complete_options.induct)
  case 1
  have "parse_args (front @ [] @ rest) (length front) c
          = parse_args ((front @ []) @ rest) (length (front @ [])) c"
    by simp
  then show ?case by (rule exI)
next
  case (2 a)
  then have a: "a = ''--verbose''" by simp
  have "parse_args (front @ [a] @ rest) (length front) c
          = parse_args ((front @ [a]) @ rest) (length (front @ [a])) (c\<lparr>verbose := True\<rparr>)"
    using parse_args_verbose [of front rest c] by (simp add: a)
  then show ?case by (rule exI)
next
  case (3 a v pre)
  show ?case
  proof (cases "a = ''--duration'' \<or> a = ''--outdir'' \<or> a = ''--min-gap''")
    case True
    from parse_args_value_flag [OF True, of front v "pre @ rest" c] obtain c1 where
      step: "parse_args (front @ a # v # pre @ rest) (length front) c
               = parse_args ((front @ [a, v]) @ pre @ rest) (length (front @ [a, v])) c1" ..
    from True "3.prems" have "complete_options pre" by simp
    from "3.IH"(1) [OF True this, of "front @ [a, v]" c1] obtain c' where
      ih: "parse_args ((front @ [a, v]) @ pre @ rest) (length (front @ [a, v])) c1
         = parse_args (((front @ [a, v]) @ pre) @ rest) (length ((front @ [a, v]) @ pre)) c'" ..
    have "parse_args (front @ (a # v # pre) @ rest) (length front) c
         = parse_args ((front @ a # v # pre) @ rest) (length (front @ a # v # pre)) c'"
      using step ih by simp
    then show ?thesis by (rule exI)
  next
    case False
    with "3.prems" have a: "a = ''--verbose''" and rest: "complete_options (v # pre)"
      by simp_all
    have step: "parse_args (front @ a # v # pre @ rest) (length front) c
          = parse_args ((front @ [a]) @ v # pre @ rest) (length (front @ [a])) (c\<lparr>verbose := True\<rparr>)"
      using parse_args_verbose [of front "v # pre @ rest" c] by (simp add: a)
    from "3.IH"(2) [OF False rest, of "front @ [a]" "c\<lparr>verbose := True\<rparr>"] obtain c' where
      ih: "parse_args ((front @ [a]) @ (v # pre) @ rest) (length (front @ [a])) (c\<lparr>verbose := True\<rparr>)
         = parse_args (((front @ [a]) @ (v # pre)) @ rest) (length ((front @ [a]) @ (v # pre))) c'" ..
    have "parse_args (front @ (a # v # pre) @ rest) (length front) c
         = parse_args ((front @ a # v # pre) @ rest) (length (front @ a # v # pre)) c'"
      using step ih by simp
    then show ?thesis by (rule exI)
  qed
qed


lemma parse_args_after_options:
  assumes "complete_options pre"
  shows "\<exists>c'. parse_args (prog # pre @ x # xs) 1 c
               = parse_args (([prog] @ pre) @ x # xs) (length ([prog] @ pre)) c'"
proof -
  from parse_args_skip [OF assms, of "[prog]" "x # xs" c] obtain c' where
    "parse_args ([prog] @ pre @ x # xs) (length [prog]) c
       = parse_args (([prog] @ pre) @ x # xs) (length ([prog] @ pre)) c'" ..
  then have "parse_args (prog # pre @ x # xs) 1 c
       = parse_args (([prog] @ pre) @ x # xs) (length ([prog] @ pre)) c'"
    by simp
  then show ?thesis by (rule exI)
qed

text \<open>
  C9, as the code has it. The arguments are read from left to right, and the argument
  after \<^verbatim>\<open>--duration\<close>, \<^verbatim>\<open>--outdir\<close> or \<^verbatim>\<open>--min-gap\<close> is taken as
  its value without being looked at. If the first argument after a run of complete
  options is not one of the six flags, the program prints the usage text and returns 1;
  if it is \<^verbatim>\<open>-h\<close> or \<^verbatim>\<open>--help\<close>, the program prints the usage text and
  returns 0. In both cases nothing that follows matters and the command loop is not
  entered: the result does not depend on the events, and only these lines are written.
\<close>

theorem flags_scanned_left_to_right:
  assumes "complete_options pre"
  shows "(a \<notin> {''--duration'', ''--outdir'', ''--min-gap'', ''--verbose'', ''-h'', ''--help''} \<longrightarrow>
            main (prog # pre @ a # rest) st mkdir_ok ps es ws
              = Some (1, [Log_unknown_arg a, Log_usage]))
         \<and> (h \<in> {''-h'', ''--help''} \<longrightarrow>
            main (prog # pre @ h # tail) st mkdir_ok ps es ws = Some (0, [Log_usage]))"
proof -
  have "main (prog # pre @ a # rest) st mkdir_ok ps es ws = Some (1, [Log_unknown_arg a, Log_usage])"
    if "a \<notin> {''--duration'', ''--outdir'', ''--min-gap'', ''--verbose'', ''-h'', ''--help''}"
  proof -
    from parse_args_after_options [OF assms, of prog a rest cfg_init] obtain c' where
      "parse_args (prog # pre @ a # rest) 1 cfg_init
         = parse_args (([prog] @ pre) @ a # rest) (length ([prog] @ pre)) c'" ..
    also have "\<dots> = Exit_with 1 [Log_unknown_arg a, Log_usage]"
      using that by (subst parse_args_at) simp
    finally show ?thesis by (simp add: main_def)
  qed
  moreover have "main (prog # pre @ h # tail) st mkdir_ok ps es ws = Some (0, [Log_usage])"
    if "h \<in> {''-h'', ''--help''}"
  proof -
    from parse_args_after_options [OF assms, of prog h tail cfg_init] obtain c' where
      "parse_args (prog # pre @ h # tail) 1 cfg_init
         = parse_args (([prog] @ pre) @ h # tail) (length ([prog] @ pre)) c'" ..
    also have "\<dots> = Exit_with 0 [Log_usage]"
      using that by (subst parse_args_at) auto
    finally show ?thesis by (simp add: main_def)
  qed
  ultimately show ?thesis by blast
qed

theorem flags_scanned_left_to_right_witness:
  "complete_options [''--verbose'', ''--duration'', ''5000'']
   \<and> ''--bogus'' \<notin> {''--duration'', ''--outdir'', ''--min-gap'', ''--verbose'', ''-h'', ''--help''}
   \<and> main [''cam_trigger'', ''--verbose'', ''--duration'', ''5000'', ''--bogus'', ''--help'']
        Stat_is_dir False \<lparr>tv_sec = 0, tv_nsec = 0\<rparr>
        [Line ''save'' \<lparr>tv_sec = 1, tv_nsec = 0\<rparr> (Fork_child_pid 7)] []
       = Some (1, [Log_unknown_arg ''--bogus'', Log_usage])
   \<and> ''--help'' \<in> {''-h'', ''--help''}
   \<and> main [''cam_trigger'', ''--verbose'', ''--duration'', ''5000'', ''--help'', ''--bogus'']
        Stat_is_dir False \<lparr>tv_sec = 0, tv_nsec = 0\<rparr>
        [Line ''save'' \<lparr>tv_sec = 1, tv_nsec = 0\<rparr> (Fork_child_pid 7)] []
       = Some (0, [Log_usage])"
proof -
  have h1: "complete_options [''--verbose'', ''--duration'', ''5000'']"
    by simp
  have h2: "''--bogus'' \<notin> {''--duration'', ''--outdir'', ''--min-gap'', ''--verbose'', ''-h'', ''--help''}"
    by simp
  have h3: "''--help'' \<in> {''-h'', ''--help''}"
    by simp
  from flags_scanned_left_to_right [OF h1, of "''--bogus''" "''cam_trigger''" "[''--help'']"
      Stat_is_dir False "\<lparr>tv_sec = 0, tv_nsec = 0\<rparr>"
      "[Line ''save'' \<lparr>tv_sec = 1, tv_nsec = 0\<rparr> (Fork_child_pid 7)]" "[]"
      "''--help''" "[''--bogus'']"]
  show ?thesis
    using h1 h2 h3 by simp
qed

text \<open>
  C9 as stated fails. With \<^verbatim>\<open>--help --bogus\<close> the command line contains an
  unknown flag and the program returns 0; with \<^verbatim>\<open>--bogus --help\<close> it contains
  \<^verbatim>\<open>--help\<close> and the program returns 1; with \<^verbatim>\<open>--outdir --bogus\<close> the
  unknown flag is taken as the directory, and the program enters the command loop and
  returns 0 at the end of the input.
\<close>

theorem unknown_flag_usage_counterexample:
  "main [''cam_trigger'', ''--help'', ''--bogus''] Stat_is_dir False \<lparr>tv_sec = 0, tv_nsec = 0\<rparr> [] []
     = Some (0, [Log_usage])
   \<and> main [''cam_trigger'', ''--bogus'', ''--help''] Stat_is_dir False \<lparr>tv_sec = 0, tv_nsec = 0\<rparr> [] []
     = Some (1, [Log_unknown_arg ''--bogus'', Log_usage])
   \<and> main [''cam_trigger'', ''--outdir'', ''--bogus''] Stat_is_dir False \<lparr>tv_sec = 0, tv_nsec = 0\<rparr> [] []
     = Some (0, [Log_banner, Log_default_save 10000 ''--bogus''])"
  by (simp add: main_def parse_args.simps ensure_dir_def start_state_def eval_defs)

section \<open>Command dispatch\<close>


lemma handle_line_quit:
  assumes "take 4 (trim (c_str line)) = ''quit'' \<or> take 4 (trim (c_str line)) = ''exit''"
  shows "handle_line c ps line now fr s = (Do_quit, logf Log_exiting s)"
proof -
  from assms have "trim (c_str line) \<noteq> []" by auto
  moreover from assms have
    "strncmp_eq (trim (c_str line)) ''quit'' 4 \<or> strncmp_eq (trim (c_str line)) ''exit'' 4"
    by (simp add: strncmp_eq_def)
  ultimately show ?thesis
    by (simp add: handle_line_def Let_def)
qed

lemma handle_line_status:
  assumes "take 6 (trim (c_str line)) = ''status''"
  shows "handle_line c ps line now fr s = (Do_status, logf (Log_status (0 < g_children s)) s)"
proof -
  from assms have ne: "trim (c_str line) \<noteq> []" by auto
  have "take 4 (take 6 (trim (c_str line))) = ''stat''"
    by (simp only: assms) simp
  then have t4: "take 4 (trim (c_str line)) = ''stat''" by simp
  have "\<not> strncmp_eq (trim (c_str line)) ''quit'' 4" "\<not> strncmp_eq (trim (c_str line)) ''exit'' 4"
    by (simp_all add: strncmp_eq_def t4)
  moreover have "strncmp_eq (trim (c_str line)) ''status'' 6"
    using assms by (simp add: strncmp_eq_def)
  ultimately show ?thesis
    using ne by (simp add: handle_line_def Let_def)
qed

text \<open>
  C10. The commands are recognised by \<^verbatim>\<open>strncmp\<close> on the start of the trimmed
  line. Every line whose trimmed text starts with \<^verbatim>\<open>save\<close> runs the
  \<^verbatim>\<open>save\<close> branch, and its duration argument is what follows the fourth
  character after spaces and tabs are skipped; so \<^verbatim>\<open>save15000\<close> does exactly what
  \<^verbatim>\<open>save 15000\<close> does, with the duration 15000. Every line that starts with
  \<^verbatim>\<open>quit\<close> or \<^verbatim>\<open>exit\<close> ends the loop and every line that starts with
  \<^verbatim>\<open>status\<close> reports the status: \<^verbatim>\<open>quitting\<close> quits and
  \<^verbatim>\<open>statuses\<close> is a status request.
\<close>

theorem dispatch_is_prefix_match:
  "(take 4 (trim (c_str line)) = ''save'' \<longrightarrow>
      handle_line c ps line now fr s =
        (Do_save (fst (save_cmd c (save_duration c (trim (c_str line)))
                         (ms_since_start ps now) fr s)),
         snd (save_cmd c (save_duration c (trim (c_str line))) (ms_since_start ps now) fr s))
      \<and> save_duration c (trim (c_str line)) =
          (if dropWhile is_blank (drop 4 (trim (c_str line))) \<noteq> []
              \<and> 0 < atoi (dropWhile is_blank (drop 4 (trim (c_str line))))
           then atoi (dropWhile is_blank (drop 4 (trim (c_str line)))) else duration_ms c))
   \<and> handle_line c ps ''save15000'' now fr s = handle_line c ps ''save 15000'' now fr s
   \<and> save_duration c ''save15000'' = 15000
   \<and> (take 4 (trim (c_str qline)) = ''quit'' \<or> take 4 (trim (c_str qline)) = ''exit'' \<longrightarrow>
        handle_line c ps qline now fr s = (Do_quit, logf Log_exiting s))
   \<and> (take 6 (trim (c_str sline)) = ''status'' \<longrightarrow>
        handle_line c ps sline now fr s = (Do_status, logf (Log_status (0 < g_children s)) s))
   \<and> fst (handle_line c ps ''quitting'' now fr s) = Do_quit
   \<and> fst (handle_line c ps ''statuses'' now fr s) = Do_status"
proof -
  have tr: "trim (c_str ''save15000'') = ''save15000''" "trim (c_str ''save 15000'') = ''save 15000''"
    "trim (c_str ''quitting'') = ''quitting''" "trim (c_str ''statuses'') = ''statuses''"
    by (simp_all add: trim_def c_str_def is_trim_char_def)
  have d: "save_duration c ''save15000'' = 15000" "save_duration c ''save 15000'' = 15000"
    by (simp_all add: save_duration_def is_blank_def atoi_eval)
  have "handle_line c ps line now fr s =
        (Do_save (fst (save_cmd c (save_duration c (trim (c_str line)))
                         (ms_since_start ps now) fr s)),
         snd (save_cmd c (save_duration c (trim (c_str line))) (ms_since_start ps now) fr s))"
    if "take 4 (trim (c_str line)) = ''save''"
    using that by (rule handle_line_save)
  moreover have "save_duration c (trim (c_str line)) =
          (if dropWhile is_blank (drop 4 (trim (c_str line))) \<noteq> []
              \<and> 0 < atoi (dropWhile is_blank (drop 4 (trim (c_str line))))
           then atoi (dropWhile is_blank (drop 4 (trim (c_str line)))) else duration_ms c)"
    by (simp add: save_duration_def Let_def)
  moreover have "handle_line c ps ''save15000'' now fr s = handle_line c ps ''save 15000'' now fr s"
  proof -
    have "take 4 (trim (c_str ''save15000'')) = ''save''" "take 4 (trim (c_str ''save 15000'')) = ''save''"
      by (simp_all add: tr)
    then show ?thesis
      by (simp only: handle_line_save tr d)
  qed
  moreover note d(1)
  moreover have "handle_line c ps qline now fr s = (Do_quit, logf Log_exiting s)"
    if "take 4 (trim (c_str qline)) = ''quit'' \<or> take 4 (trim (c_str qline)) = ''exit''"
    using that by (rule handle_line_quit)
  moreover have "handle_line c ps sline now fr s = (Do_status, logf (Log_status (0 < g_children s)) s)"
    if "take 6 (trim (c_str sline)) = ''status''"
    using that by (rule handle_line_status)
  moreover have "fst (handle_line c ps ''quitting'' now fr s) = Do_quit"
    by (subst handle_line_quit) (simp_all add: tr)
  moreover have "fst (handle_line c ps ''statuses'' now fr s) = Do_status"
    by (subst handle_line_status) (simp_all add: tr)
  ultimately show ?thesis by blast
qed


theorem dispatch_is_prefix_match_witness:
  "take 4 (trim (c_str (''  save 15000'' @ [CHR 0x0A]))) = ''save''
   \<and> handle_line cfg_init \<lparr>tv_sec = 0, tv_nsec = 0\<rparr> (''  save 15000'' @ [CHR 0x0A])
        \<lparr>tv_sec = 1, tv_nsec = 0\<rparr> (Fork_child_pid 7) state_init
       = (Do_save (Proceed 15000),
          \<lparr>g_stop = False, g_children = 1, last_ms_since_start = 1000, stderr = [],
       unreaped = 1\<rparr>)
   \<and> (take 4 (trim (c_str ''exit now'')) = ''quit'' \<or> take 4 (trim (c_str ''exit now'')) = ''exit'')
   \<and> handle_line cfg_init \<lparr>tv_sec = 0, tv_nsec = 0\<rparr> ''exit now''
        \<lparr>tv_sec = 1, tv_nsec = 0\<rparr> (Fork_child_pid 7) state_init
       = (Do_quit, logf Log_exiting state_init)
   \<and> take 6 (trim (c_str ''status?'')) = ''status''
   \<and> handle_line cfg_init \<lparr>tv_sec = 0, tv_nsec = 0\<rparr> ''status?''
        \<lparr>tv_sec = 1, tv_nsec = 0\<rparr> (Fork_child_pid 7) state_init
       = (Do_status, logf (Log_status (0 < g_children state_init)) state_init)"
proof -
  have h1: "take 4 (trim (c_str (''  save 15000'' @ [CHR 0x0A]))) = ''save''"
    and h2: "take 4 (trim (c_str ''exit now'')) = ''quit'' \<or> take 4 (trim (c_str ''exit now'')) = ''exit''"
    and h3: "take 6 (trim (c_str ''status?'')) = ''status''"
    by (simp_all add: trim_def c_str_def is_trim_char_def)
  have d: "save_duration cfg_init (trim (c_str (''  save 15000'' @ [CHR 0x0A]))) = 15000"
    by (simp add: trim_def c_str_def is_trim_char_def save_duration_def is_blank_def atoi_eval)
  have s: "save_cmd cfg_init 15000 (ms_since_start \<lparr>tv_sec = 0, tv_nsec = 0\<rparr> \<lparr>tv_sec = 1, tv_nsec = 0\<rparr>)
             (Fork_child_pid 7) state_init
           = (Proceed 15000, \<lparr>g_stop = False, g_children = 1, last_ms_since_start = 1000, stderr = [],
       unreaped = 1\<rparr>)"
    by (simp add: save_cmd_def ms_since_start_def c_div_def cfg_init_def state_init_def
        spawn_recorder_def vlogf_def logf_def Let_def)
  from dispatch_is_prefix_match [of "''  save 15000'' @ [CHR 0x0A]" cfg_init
      "\<lparr>tv_sec = 0, tv_nsec = 0\<rparr>" "\<lparr>tv_sec = 1, tv_nsec = 0\<rparr>" "Fork_child_pid 7" state_init
      "''exit now''" "''status?''"]
  show ?thesis
    using h1 h2 h3 by (simp only: d s fst_conv snd_conv simp_thms)
qed


end
